theory Spec2Isabelle
  imports Main "HOL-Library.AList" "HOL-Library.Sublist"
begin

section \<open>Catalogue query client (csw.service.ts)\<close>

text \<open>
  \<^verbatim>\<open>getExecutionResults\<close> builds its request body from one template literal with a single
  hole, \<^verbatim>\<open>${executionId}\<close>. The literal is split here at the line of the
  \<^verbatim>\<open>PropertyIsLike\<close> element; the pieces concatenate to the text of the source, with the
  escape sequence of the literal (backslash, double quote) already replaced by the double
  quote it denotes.
\<close>

definition xmlEnvelopeOpen :: string where
  \<open>xmlEnvelopeOpen = ''\<newline>      <csw:GetRecords xmlns:csw="http://www.opengis.net/cat/csw/2.0.2" xmlns:ogc="http://www.opengis.net/ogc" service="CSW" version="2.0.2" resultType="results" startPosition="1" maxRecords="10" outputFormat="application/xml" outputSchema="http://www.opengis.net/cat/csw/2.0.2" xmlns:xsi="http://www.w3.org/2001/XMLSchema-instance" xsi:schemaLocation="http://www.opengis.net/cat/csw/2.0.2 http://schemas.opengis.net/csw/2.0.2/CSW-discovery.xsd" xmlns:gmd="http://www.isotc211.org/2005/gmd" xmlns:apiso="http://www.opengis.net/cat/csw/apiso/1.0">\<newline>        <csw:Query typeNames="csw:Record">\<newline>          <csw:ElementSetName>full</csw:ElementSetName>\<newline>          <csw:Constraint version="1.1.0">\<newline>            <ogc:Filter>\<newline>''\<close>

definition xmlFilterOpen :: string where
  \<open>xmlFilterOpen = ''              <ogc:PropertyIsLike matchCase="false" wildCard="%" singleChar="_" escapeChar="">\<newline>                <ogc:PropertyName>dc:title</ogc:PropertyName>\<newline>                <ogc:Literal>''\<close>

definition xmlFilterClose :: string where
  \<open>xmlFilterClose = ''</ogc:Literal>\<newline>              </ogc:PropertyIsLike>''\<close>

definition xmlEnvelopeClose :: string where
  \<open>xmlEnvelopeClose = ''\<newline>            </ogc:Filter>\<newline>          </csw:Constraint>\<newline>        </csw:Query>\<newline>      </csw:GetRecords>\<newline>    ''\<close>

definition requestBody :: "string \<Rightarrow> string" where
  "requestBody executionId =
     xmlEnvelopeOpen @ xmlFilterOpen @ ''%'' @ executionId @ ''%'' @ xmlFilterClose @ xmlEnvelopeClose"

text \<open>
  The request: \<^verbatim>\<open>this.http.post(this.uri, xml, options)\<close> with the single header
  \<^verbatim>\<open>Content-Type: text/xml\<close>. \<^verbatim>\<open>Settings.REPOSITORY_ENDPOINT\<close> is declared outside the
  files at hand and is a parameter.
\<close>

record request =
  url :: string
  body :: string
  headers :: "(string \<times> string) list"

definition getExecutionResultsRequest :: "string \<Rightarrow> string \<Rightarrow> request" where
  "getExecutionResultsRequest repositoryEndpoint executionId =
     \<lparr> url = repositoryEndpoint @ ''csw'',
       body = requestBody executionId,
       headers = [(''Content-Type'', ''text/xml'')] \<rparr>"

text \<open>
  The response: \<^verbatim>\<open>xml2js.parseString(response.text(), function (err, result) { res = result; })\<close>
  followed by \<^verbatim>\<open>return res\<close>. The parser belongs to a library; what its call on the response
  text does to its caller is recorded as a \<open>parse_run\<close>: the arguments \<open>(err, result)\<close> of
  each invocation of the callback, in order, and the exception it throws, if any. Absent
  arguments and \<^verbatim>\<open>undefined\<close> are \<open>None\<close>.
\<close>

record 'r parse_run =
  invocations :: "(string option \<times> 'r option) list"
  thrown :: "string option"

text \<open>
  The callback assigns its second argument to \<^verbatim>\<open>res\<close> and never reads \<^verbatim>\<open>err\<close>; there is no
  \<^verbatim>\<open>try\<close> around the call, so an exception leaves the function (\<open>Inl\<close>).
\<close>

definition callback :: "'r option \<Rightarrow> string option \<times> 'r option \<Rightarrow> 'r option" where
  "callback res args = (case args of (err, result) \<Rightarrow> result)"

definition mapResponse :: "'r parse_run \<Rightarrow> string + 'r option" where
  "mapResponse run =
     (let res = foldl callback None (invocations run)
      in case thrown run of
           Some e \<Rightarrow> Inl e
         | None \<Rightarrow> Inr res)"

section \<open>Property inspector (data.inspector.ts)\<close>

subsection \<open>JavaScript values\<close>

text \<open>
  The values a data property can hold. Numbers, functions, the geometry classes of the
  diagram library and other objects are opaque: their payload has the type parameter
  \<open>'a\<close>, and everything the inspector asks of them goes through the record \<open>ext\<close> below.
\<close>

datatype gokind = Point | Size | Rect | Spot | Margin

datatype 'a jsval =
    JUndefined
  | JNull
  | JBool bool
  | JNum 'a
  | JStr string
  | JFunction 'a
  | JGo gokind 'a
  | JList "'a jsval list"
  | JArray "'a jsval list"
  | JObject 'a

fun typeof :: "'a jsval \<Rightarrow> string" where
  "typeof JUndefined = ''undefined''"
| "typeof (JBool b) = ''boolean''"
| "typeof (JNum n) = ''number''"
| "typeof (JStr s) = ''string''"
| "typeof (JFunction f) = ''function''"
| "typeof v = ''object''"

text \<open>The one exception the inspector's own statements raise.\<close>

datatype error = TypeError

text \<open>
  A member every plain object inherits from \<^verbatim>\<open>Object.prototype\<close>: a method such as
  \<^verbatim>\<open>toString\<close> or \<^verbatim>\<open>constructor\<close>, or an object (\<^verbatim>\<open>__proto__\<close>). Both are truthy, and neither
  has a property \<^verbatim>\<open>show\<close>, \<^verbatim>\<open>readOnly\<close>, \<^verbatim>\<open>type\<close> or \<^verbatim>\<open>defaultValue\<close>.
\<close>

datatype 'a member = MemberFunction 'a | MemberObject 'a

fun memberValue :: "'a member \<Rightarrow> 'a jsval" where
  "memberValue (MemberFunction f) = JFunction f"
| "memberValue (MemberObject x) = JObject x"

text \<open>
  What the inspector calls but does not define: \<^verbatim>\<open>parseFloat\<close>, the \<^verbatim>\<open>parse\<close> and
  \<^verbatim>\<open>stringify\<close> functions of \<^verbatim>\<open>go.Point\<close>, \<^verbatim>\<open>go.Size\<close>, \<^verbatim>\<open>go.Rect\<close>, \<^verbatim>\<open>go.Spot\<close> and
  \<^verbatim>\<open>go.Margin\<close>, the \<^verbatim>\<open>toString\<close> method of numbers, of functions and of other objects
  (\<open>None\<close> for an object that has no callable \<^verbatim>\<open>toString\<close>, such as one made by
  \<^verbatim>\<open>Object.create(null)\<close>: the call \<^verbatim>\<open>x.toString()\<close> is then a type error), the truth value
  of a number (\<open>numberIsFalsy\<close>: zero and NaN), the canvas that normalises a colour
  (\<^verbatim>\<open>ctx.fillStyle = v; return ctx.fillStyle\<close>; \<open>None\<close> when the assignment throws because
  \<open>v\<close> cannot be converted to a string), the browser's input element (the \<^verbatim>\<open>type\<close> it reports
  once its attribute has been set, \<open>None\<close> being \<^verbatim>\<open>undefined\<close>, and the string it keeps when
  a script assigns to its \<^verbatim>\<open>value\<close>), and the members of \<^verbatim>\<open>Object.prototype\<close> by name.
\<close>

record 'a ext =
  parseFloat :: "string \<Rightarrow> 'a"
  goParse :: "gokind \<Rightarrow> string \<Rightarrow> 'a"
  goStringify :: "gokind \<Rightarrow> 'a \<Rightarrow> string"
  numberToString :: "'a \<Rightarrow> string"
  functionToString :: "'a \<Rightarrow> string"
  objectToString :: "'a \<Rightarrow> string option"
  numberIsFalsy :: "'a \<Rightarrow> bool"
  canvasFillStyle :: "'a jsval \<Rightarrow> string option"
  inputTypeOf :: "string option \<Rightarrow> string"
  domValue :: "string \<Rightarrow> 'a jsval \<Rightarrow> string"
  objectPrototype :: "string \<Rightarrow> 'a member option"

fun falsy :: "'a ext \<Rightarrow> 'a jsval \<Rightarrow> bool" where
  "falsy e JUndefined = True"
| "falsy e JNull = True"
| "falsy e (JBool b) = (\<not> b)"
| "falsy e (JNum n) = numberIsFalsy e n"
| "falsy e (JStr s) = (s = [])"
| "falsy e v = False"

subsection \<open>The diagram: parts, data records, selection\<close>

text \<open>
  An inspected object is \<^verbatim>\<open>undefined\<close>, \<^verbatim>\<open>null\<close>, a \<^verbatim>\<open>go.Part\<close> or a plain data object; parts
  and data objects are references, compared by identity. \<open>partData\<close> is \<^verbatim>\<open>Part.data\<close>
  (\<open>None\<close> for \<^verbatim>\<open>null\<close>); \<open>heap\<close> gives the own properties of a data object, in the order
  \<^verbatim>\<open>for (const k in data)\<close> visits them (the members of \<^verbatim>\<open>Object.prototype\<close> are not
  enumerable).
\<close>

datatype obj = OUndefined | ONull | OPart nat | OData nat

record 'a world =
  partData :: "nat \<Rightarrow> nat option"
  heap :: "nat \<Rightarrow> (string \<times> 'a jsval) list"

text \<open>
  \<^verbatim>\<open>data[k]\<close>: the object's own property, else the member inherited under that name, else
  \<^verbatim>\<open>undefined\<close>.
\<close>

definition getProp :: "'a ext \<Rightarrow> (string \<times> 'a jsval) list \<Rightarrow> string \<Rightarrow> 'a jsval" where
  "getProp e props k =
     (case map_of props k of
        Some v \<Rightarrow> v
      | None \<Rightarrow> (case objectPrototype e k of
                   Some m \<Rightarrow> memberValue m
                 | None \<Rightarrow> JUndefined))"

text \<open>
  \<^verbatim>\<open>(inspectedObject instanceof go.Part) ? inspectedObject.data : inspectedObject\<close>, with
  \<open>None\<close> when the result is \<^verbatim>\<open>null\<close> or \<^verbatim>\<open>undefined\<close>, the cases \<^verbatim>\<open>!data\<close> selects.
\<close>

definition dataOf :: "'a world \<Rightarrow> obj \<Rightarrow> nat option" where
  "dataOf w object =
     (case object of
        OPart p \<Rightarrow> partData w p
      | OData d \<Rightarrow> Some d
      | _ \<Rightarrow> None)"

subsection \<open>Property descriptors and options\<close>

text \<open>
  \<^verbatim>\<open>show\<close> and \<^verbatim>\<open>readOnly\<close> are absent, a boolean, or a predicate called with the inspected
  object and the property name; a predicate may read the current data, so it takes the
  world too. \<^verbatim>\<open>type\<close> is absent or a string; an absent \<^verbatim>\<open>defaultValue\<close> is \<open>JUndefined\<close>.
\<close>

datatype 'a flag = Unset | Flag bool | Predicate "'a world \<Rightarrow> obj \<Rightarrow> string \<Rightarrow> bool"

record 'a propertyDesc =
  pshow :: "'a flag"
  preadOnly :: "'a flag"
  ptype :: "string option"
  pdefaultValue :: "'a jsval"

text \<open>
  \<^verbatim>\<open>declaredProperties[k]\<close>: the descriptor declared under the name, else the member inherited
  under it, which answers \<^verbatim>\<open>undefined\<close> for each of the four fields, else \<^verbatim>\<open>undefined\<close>
  (\<open>None\<close>).
\<close>

definition inheritedDesc :: "'a propertyDesc" where
  "inheritedDesc = \<lparr> pshow = Unset, preadOnly = Unset, ptype = None, pdefaultValue = JUndefined \<rparr>"

definition declaredProperty ::
  "'a ext \<Rightarrow> (string \<times> 'a propertyDesc) list \<Rightarrow> string \<Rightarrow> 'a propertyDesc option" where
  "declaredProperty e decl k =
     (case map_of decl k of
        Some desc \<Rightarrow> Some desc
      | None \<Rightarrow> (case objectPrototype e k of
                   Some m \<Rightarrow> Some inheritedDesc
                 | None \<Rightarrow> None))"

text \<open>
  \<^verbatim>\<open>o.hasOwnProperty(k)\<close> in the loops over \<^verbatim>\<open>declaredProperties\<close> and
  \<^verbatim>\<open>_inspectedProperties\<close>: when the object has a property named \<^verbatim>\<open>hasOwnProperty\<close> itself
  (a descriptor, an input element), that is what gets called, and the call is a type error.
\<close>

definition hasOwnPropertyCall :: "string list \<Rightarrow> string \<Rightarrow> error + bool" where
  "hasOwnPropertyCall ownKeys k =
     (if ''hasOwnProperty'' \<in> set ownKeys then Inl TypeError else Inr (k \<in> set ownKeys))"

record 'a options =
  optIncludesOwnProperties :: "bool option"
  optProperties :: "(string \<times> 'a propertyDesc) list option"
  optInspectSelection :: "bool option"
  optPropertyModified :: bool

subsection \<open>The page: input elements\<close>

text \<open>
  An input element: its \<^verbatim>\<open>type\<close> as the browser reports it, its \<^verbatim>\<open>value\<close>, \<^verbatim>\<open>disabled\<close>,
  \<^verbatim>\<open>tabIndex\<close>, and the events for which \<^verbatim>\<open>setprops\<close> (a call of \<^verbatim>\<open>updateAllProperties\<close>) is
  registered. Elements are shared between the table in the page and
  \<^verbatim>\<open>_inspectedProperties\<close>; both hold the element's address in the store \<open>inputs\<close>.
\<close>

record input =
  itype :: string
  ivalue :: string
  disabled :: bool
  inputTabIndex :: nat
  listeners :: "string list"

definition createInput :: input where
  "createInput = \<lparr> itype = ''text'', ivalue = [], disabled = False, inputTabIndex = 0, listeners = [] \<rparr>"

subsection \<open>The inspector\<close>

text \<open>
  Calls the inspector makes on the diagram, its model and the \<^verbatim>\<open>propertyModified\<close> callback,
  in the order made.
\<close>

datatype 'a event =
    StartTransaction string
  | CommitTransaction string
  | SetDataProperty nat string "'a jsval"
  | PropertyModified string "'a jsval"

text \<open>
  The fields of the class, then what it reaches through \<^verbatim>\<open>document\<close> and \<^verbatim>\<open>this._diagram\<close>: the
  input elements, the selected parts, the model's \<^verbatim>\<open>isReadOnly\<close>, the parts and their data,
  and the calls made so far. \<open>mainDiv\<close> is the content of \<^verbatim>\<open>this._div\<close>: the rows of its
  table, each a label and an input. \<open>inspectedProperties\<close> holds the own properties of
  \<^verbatim>\<open>this._inspectedProperties\<close>, a plain object. \<open>propertyModified\<close> tells whether a callback
  is set (\<^verbatim>\<open>this.propertyModified !== null\<close>).
\<close>

record 'a inspector =
  includesOwnProperties :: bool
  declaredProperties :: "(string \<times> 'a propertyDesc) list"
  inspectsSelection :: bool
  propertyModified :: bool
  mainDiv :: "(string \<times> nat) list"
  inspectedProperties :: "(string \<times> nat) list"
  inspectedObject :: obj
  tabIndex :: nat
  inputs :: "nat \<Rightarrow> input"
  nextInput :: nat
  selection :: "nat list"
  isReadOnly :: bool
  world :: "'a world"
  calls :: "'a event list"

text \<open>
  A method returns normally with the new state (\<open>Inr\<close>), or throws, leaving the inspector
  in the state reached when the exception was raised (\<open>Inl\<close>). \<open>stateAfter\<close> is the state
  after the call, either way.
\<close>

definition stateAfter :: "(error \<times> 's) + 's \<Rightarrow> 's" where
  "stateAfter outcome = (case outcome of Inl (err, st) \<Rightarrow> st | Inr st \<Rightarrow> st)"

text \<open>
  The constructor, given the state of the diagram; the container is emptied. \<^verbatim>\<open>tabIndex\<close> is
  not initialised in the source; it is read only after \<^verbatim>\<open>inspectObject\<close> has set it to 0.
\<close>

definition Inspector ::
  "'a options \<Rightarrow> nat list \<Rightarrow> bool \<Rightarrow> 'a world \<Rightarrow> 'a inspector" where
  "Inspector options sel ro w =
     \<lparr> includesOwnProperties = (case optIncludesOwnProperties options of Some b \<Rightarrow> b | None \<Rightarrow> True),
       declaredProperties = (case optProperties options of Some ps \<Rightarrow> ps | None \<Rightarrow> []),
       inspectsSelection = (case optInspectSelection options of Some b \<Rightarrow> b | None \<Rightarrow> True),
       propertyModified = optPropertyModified options,
       mainDiv = [],
       inspectedProperties = [],
       inspectedObject = ONull,
       tabIndex = 0,
       inputs = (\<lambda>i. createInput),
       nextInput = 0,
       selection = sel,
       isReadOnly = ro,
       world = w,
       calls = [] \<rparr>"

text \<open>\<^verbatim>\<open>this._diagram.selection.first()\<close>: the first selected part, or \<^verbatim>\<open>null\<close>.\<close>

definition selectionFirst :: "'a inspector \<Rightarrow> obj" where
  "selectionFirst st = (case selection st of [] \<Rightarrow> ONull | p # ps \<Rightarrow> OPart p)"

subsection \<open>canShowProperty, canEditProperty\<close>

definition canShowProperty :: "'a world \<Rightarrow> string \<Rightarrow> 'a propertyDesc \<Rightarrow> obj \<Rightarrow> bool" where
  "canShowProperty w propertyName propertyDesc object =
     (case pshow propertyDesc of
        Flag False \<Rightarrow> False
      | Predicate f \<Rightarrow> f w object propertyName
      | _ \<Rightarrow> True)"

text \<open>
  \<^verbatim>\<open>data[propertyName]\<close> is a type error when \<^verbatim>\<open>data\<close> is \<^verbatim>\<open>null\<close> or \<^verbatim>\<open>undefined\<close>. The
  descriptor is \<open>None\<close> when \<^verbatim>\<open>declaredProperties[propertyName]\<close> is \<^verbatim>\<open>undefined\<close>.
\<close>

definition canEditProperty ::
  "'a ext \<Rightarrow> 'a world \<Rightarrow> string \<Rightarrow> 'a propertyDesc option \<Rightarrow> obj \<Rightarrow> error + bool" where
  "canEditProperty e w propertyName propertyDesc object =
     (case dataOf w object of
        None \<Rightarrow> Inl TypeError
      | Some d \<Rightarrow>
          if typeof (getProp e (heap w d) propertyName) = ''function'' then Inr False
          else (case propertyDesc of
                  None \<Rightarrow> Inr True
                | Some desc \<Rightarrow>
                    (case preadOnly desc of
                       Flag True \<Rightarrow> Inr False
                     | Predicate f \<Rightarrow> Inr (\<not> f w object propertyName)
                     | _ \<Rightarrow> Inr True)))"

subsection \<open>Conversions\<close>

definition convertToColor :: "'a ext \<Rightarrow> 'a jsval \<Rightarrow> error + string" where
  "convertToColor e propertyValue =
     (case canvasFillStyle e propertyValue of
        None \<Rightarrow> Inl TypeError
      | Some c \<Rightarrow> Inr c)"

text \<open>\<^verbatim>\<open>String.prototype.split\<close> with a one-character separator.\<close>

fun jsSplit :: "char \<Rightarrow> string \<Rightarrow> string list" where
  "jsSplit c [] = [[]]"
| "jsSplit c (x # xs) =
     (if x = c then [] # jsSplit c xs
      else (case jsSplit c xs of
              w # ws \<Rightarrow> (x # w) # ws
            | [] \<Rightarrow> [[x]]))"

definition convertToArrayOfNumber :: "'a ext \<Rightarrow> string \<Rightarrow> 'a jsval" where
  "convertToArrayOfNumber e propertyValue =
     (if propertyValue = ''null'' then JNull
      else JArray (map (\<lambda>str. JNum (parseFloat e str))
                       (filter (\<lambda>str. str \<noteq> []) (jsSplit CHR '' '' propertyValue))))"

text \<open>The loop of \<^verbatim>\<open>convertToString\<close> over an array: a blank before every item but the first.\<close>

fun joinItems :: "string list \<Rightarrow> string" where
  "joinItems [] = []"
| "joinItems [s] = s"
| "joinItems (s # t # ss) = s @ '' '' @ joinItems (t # ss)"

text \<open>The items are converted in order; the first exception ends the loop.\<close>

fun firstError :: "(error + 'b) list \<Rightarrow> error + 'b list" where
  "firstError [] = Inr []"
| "firstError (Inl err # rs) = Inl err"
| "firstError (Inr x # rs) = (case firstError rs of Inl err \<Rightarrow> Inl err | Inr xs \<Rightarrow> Inr (x # xs))"

fun convertToString :: "'a ext \<Rightarrow> 'a jsval \<Rightarrow> error + string" where
  "convertToString e JUndefined = Inr ''undefined''"
| "convertToString e JNull = Inr ''null''"
| "convertToString e (JGo k g) = Inr (goStringify e k g)"
| "convertToString e (JList xs) =
     (case firstError (map (convertToString e) xs) of
        Inl err \<Rightarrow> Inl err
      | Inr strs \<Rightarrow> Inr (joinItems strs))"
| "convertToString e (JArray xs) =
     (case firstError (map (convertToString e) xs) of
        Inl err \<Rightarrow> Inl err
      | Inr strs \<Rightarrow> Inr (joinItems strs))"
| "convertToString e (JBool b) = Inr (if b then ''true'' else ''false'')"
| "convertToString e (JStr s) = Inr s"
| "convertToString e (JNum n) = Inr (numberToString e n)"
| "convertToString e (JFunction f) = Inr (functionToString e f)"
| "convertToString e (JObject x) =
     (case objectToString e x of
        None \<Rightarrow> Inl TypeError
      | Some s \<Rightarrow> Inr s)"

subsection \<open>buildPropertyRow\<close>

text \<open>
  Assigning \<open>v\<close> to \<^verbatim>\<open>input.value\<close> of the element at address \<open>i\<close>: the browser keeps the
  string \<open>domValue\<close> gives for the element's type.
\<close>

definition assignValue :: "'a ext \<Rightarrow> 'a jsval \<Rightarrow> input \<Rightarrow> input" where
  "assignValue e v inp = inp\<lparr>ivalue := domValue e (itype inp) v\<rparr>"

definition setInputValue :: "'a ext \<Rightarrow> nat \<Rightarrow> 'a jsval \<Rightarrow> 'a inspector \<Rightarrow> 'a inspector" where
  "setInputValue e i v st = st\<lparr>inputs := (inputs st)(i := assignValue e v (inputs st i))\<rparr>"

text \<open>
  The block under \<^verbatim>\<open>if (decProp)\<close>: the \<^verbatim>\<open>type\<close> attribute is set unless the declared type is
  one of nine names (an absent type is none of them); the element then reports the type the
  browser gives it and keeps its value as that type allows. A declared \<^verbatim>\<open>color\<close> on an
  element that reports \<^verbatim>\<open>color\<close> gets the \<^verbatim>\<open>input\<close> and \<^verbatim>\<open>change\<close> listeners and the
  normalised colour as value.
\<close>

definition applyDeclaredType ::
  "'a ext \<Rightarrow> 'a propertyDesc \<Rightarrow> 'a jsval \<Rightarrow> input \<Rightarrow> error + input" where
  "applyDeclaredType e decProp propertyValue inp =
     (let t = ptype decProp;
          inp1 = (if t \<noteq> Some ''string'' \<and> t \<noteq> Some ''number'' \<and> t \<noteq> Some ''boolean'' \<and>
                     t \<noteq> Some ''arrayofnumber'' \<and> t \<noteq> Some ''point'' \<and> t \<noteq> Some ''size'' \<and>
                     t \<noteq> Some ''rect'' \<and> t \<noteq> Some ''spot'' \<and> t \<noteq> Some ''margin''
                  then assignValue e (JStr (ivalue inp)) (inp\<lparr>itype := inputTypeOf e t\<rparr>)
                  else inp)
      in if t = Some ''color'' then
           (if itype inp1 = ''color''
            then (case convertToColor e propertyValue of
                    Inl err \<Rightarrow> Inl err
                  | Inr c \<Rightarrow>
                      Inr (assignValue e (JStr c)
                             (inp1\<lparr>listeners := listeners inp1 @ [''input'', ''change'']\<rparr>)))
            else Inr inp1)
         else Inr inp1)"

text \<open>
  The input element \<^verbatim>\<open>buildPropertyRow\<close> configures, given the text of the value and the
  answer of \<^verbatim>\<open>canEditProperty\<close>: tab index, value, \<^verbatim>\<open>disabled\<close>, the declared type, the model's
  \<^verbatim>\<open>isReadOnly\<close>, and the \<^verbatim>\<open>blur\<close> listener unless the element reports the type \<^verbatim>\<open>color\<close>.
\<close>

definition rowInput ::
  "'a ext \<Rightarrow> 'a inspector \<Rightarrow> string \<Rightarrow> 'a jsval \<Rightarrow> string \<Rightarrow> bool \<Rightarrow> error + input" where
  "rowInput e st propertyName propertyValue text editable =
     (let decProp = declaredProperty e (declaredProperties st) propertyName;
          input0 = createInput\<lparr>inputTabIndex := tabIndex st\<rparr>;
          input1 = assignValue e (JStr text) input0;
          input2 = input1\<lparr>disabled := \<not> editable\<rparr>
      in case (case decProp of
                 None \<Rightarrow> Inr input2
               | Some desc \<Rightarrow> applyDeclaredType e desc propertyValue input2) of
           Inl err \<Rightarrow> Inl err
         | Inr input3 \<Rightarrow>
             (let input4 = (if isReadOnly st then input3\<lparr>disabled := True\<rparr> else input3)
              in Inr (if itype input4 \<noteq> ''color''
                      then input4\<lparr>listeners := listeners input4 @ [''blur'']\<rparr>
                      else input4)))"

text \<open>
  The result is the row (label and input) and the new state: the tab index is counted up,
  the element is stored at a new address, and it is recorded in \<^verbatim>\<open>_inspectedProperties\<close>
  under the property name. The statements that can throw come in the order of the source:
  \<^verbatim>\<open>convertToString\<close>, \<^verbatim>\<open>canEditProperty\<close>, \<^verbatim>\<open>convertToColor\<close>; by then the tab index has been
  counted up and nothing else of the inspector has changed.
\<close>

definition buildPropertyRow ::
  "'a ext \<Rightarrow> string \<Rightarrow> 'a jsval \<Rightarrow> 'a inspector \<Rightarrow>
   (error \<times> 'a inspector) + ((string \<times> nat) \<times> 'a inspector)" where
  "buildPropertyRow e propertyName propertyValue st =
     (let i = nextInput st;
          decProp = declaredProperty e (declaredProperties st) propertyName;
          aborted = st\<lparr>tabIndex := Suc (tabIndex st)\<rparr>
      in case convertToString e propertyValue of
           Inl err \<Rightarrow> Inl (err, aborted)
         | Inr text \<Rightarrow>
             (case canEditProperty e (world st) propertyName decProp (inspectedObject st) of
                Inl err \<Rightarrow> Inl (err, aborted)
              | Inr editable \<Rightarrow>
                  (case rowInput e st propertyName propertyValue text editable of
                     Inl err \<Rightarrow> Inl (err, aborted)
                   | Inr inp \<Rightarrow>
                       Inr ((propertyName, i),
                            st\<lparr>tabIndex := Suc (tabIndex st),
                               nextInput := Suc i,
                               inputs := (inputs st)(i := inp),
                               inspectedProperties :=
                                 AList.update propertyName i (inspectedProperties st)\<rparr>))))"

subsection \<open>updateAllHTML\<close>

text \<open>
  What one round of either loop does to an input: without data the field is cleared (black
  for a colour input), with data it shows the property's value, as a colour or as text.
\<close>

definition refreshed ::
  "'a ext \<Rightarrow> (string \<times> 'a jsval) list option \<Rightarrow> string \<Rightarrow> input \<Rightarrow> error + input" where
  "refreshed e data name inp =
     (case data of
        None \<Rightarrow>
          if itype inp = ''color'' then Inr (assignValue e (JStr ''#000000'') inp)
          else Inr (assignValue e (JStr []) inp)
      | Some props \<Rightarrow>
          (let propertyValue = getProp e props name in
           if itype inp = ''color''
           then (case convertToColor e propertyValue of
                   Inl err \<Rightarrow> Inl err
                 | Inr c \<Rightarrow> Inr (assignValue e (JStr c) inp))
           else (case convertToString e propertyValue of
                   Inl err \<Rightarrow> Inl err
                 | Inr s \<Rightarrow> Inr (assignValue e (JStr s) inp))))"

text \<open>
  The loop over \<^verbatim>\<open>_inspectedProperties\<close>, with its \<^verbatim>\<open>hasOwnProperty\<close> test; an exception leaves
  the inputs refreshed so far as they are.
\<close>

fun refreshRows ::
  "'a ext \<Rightarrow> (string \<times> 'a jsval) list option \<Rightarrow> (string \<times> nat) list \<Rightarrow> 'a inspector \<Rightarrow>
   (error \<times> 'a inspector) + 'a inspector" where
  "refreshRows e data [] st = Inr st"
| "refreshRows e data ((name, i) # rows) st =
     (case hasOwnPropertyCall (map fst (inspectedProperties st)) name of
        Inl err \<Rightarrow> Inl (err, st)
      | Inr own \<Rightarrow>
          if \<not> own then refreshRows e data rows st
          else (case refreshed e data name (inputs st i) of
                  Inl err \<Rightarrow> Inl (err, st)
                | Inr inp \<Rightarrow> refreshRows e data rows (st\<lparr>inputs := (inputs st)(i := inp)\<rparr>)))"

text \<open>
  \<^verbatim>\<open>data\<close> is read once, before the loop; \<open>None\<close> stands for the branch \<^verbatim>\<open>!data\<close>.
\<close>

definition updateAllHTML :: "'a ext \<Rightarrow> 'a inspector \<Rightarrow> (error \<times> 'a inspector) + 'a inspector" where
  "updateAllHTML e st =
     (let data = map_option (heap (world st)) (dataOf (world st) (inspectedObject st))
      in refreshRows e data (inspectedProperties st) st)"

subsection \<open>inspectObject\<close>

text \<open>
  The first loop: the declared properties that may be shown get a row, with the data's
  value, else the declared default, else the empty string; a falsy value is replaced by the
  empty string (\<^verbatim>\<open>defaultValue || ''\<close>).
\<close>

fun declaredLoop ::
  "'a ext \<Rightarrow> obj \<Rightarrow> nat \<Rightarrow> (string \<times> 'a propertyDesc) list \<Rightarrow>
   (string \<times> nat) list \<times> 'a inspector \<Rightarrow>
   (error \<times> 'a inspector) + ((string \<times> nat) list \<times> 'a inspector)" where
  "declaredLoop e object d [] (tbody, st) = Inr (tbody, st)"
| "declaredLoop e object d ((k, val) # rest) (tbody, st) =
     (case hasOwnPropertyCall (map fst (declaredProperties st)) k of
        Inl err \<Rightarrow> Inl (err, st)
      | Inr own \<Rightarrow>
          if \<not> own then declaredLoop e object d rest (tbody, st)
          else if \<not> canShowProperty (world st) k val object
          then declaredLoop e object d rest (tbody, st)
          else
            (let defaultValue0 = JStr [];
                 defaultValue1 = (if pdefaultValue val \<noteq> JUndefined then pdefaultValue val
                                  else defaultValue0);
                 defaultValue2 = (if getProp e (heap (world st) d) k \<noteq> JUndefined
                                  then getProp e (heap (world st) d) k
                                  else defaultValue1)
             in case buildPropertyRow e k
                       (if falsy e defaultValue2 then JStr [] else defaultValue2) st of
                  Inl exc \<Rightarrow> Inl exc
                | Inr (tr, st') \<Rightarrow> declaredLoop e object d rest (tbody @ [tr], st')))"

text \<open>
  The second loop, over the keys of the data. Skipped are the library's hash key, a name
  for which \<^verbatim>\<open>this._inspectedProperties[k]\<close> is truthy (a row built already, or a member
  that the plain object \<^verbatim>\<open>_inspectedProperties\<close> inherits), and a name whose declared
  descriptor may not be shown.
\<close>

definition inspectedPropertyTruthy :: "'a ext \<Rightarrow> (string \<times> nat) list \<Rightarrow> string \<Rightarrow> bool" where
  "inspectedPropertyTruthy e ip k \<longleftrightarrow> map_of ip k \<noteq> None \<or> objectPrototype e k \<noteq> None"

fun ownLoop ::
  "'a ext \<Rightarrow> obj \<Rightarrow> nat \<Rightarrow> string list \<Rightarrow>
   (string \<times> nat) list \<times> 'a inspector \<Rightarrow>
   (error \<times> 'a inspector) + ((string \<times> nat) list \<times> 'a inspector)" where
  "ownLoop e object d [] (tbody, st) = Inr (tbody, st)"
| "ownLoop e object d (k # rest) (tbody, st) =
     (if k = ''__gohashid'' then ownLoop e object d rest (tbody, st)
      else if inspectedPropertyTruthy e (inspectedProperties st) k
           then ownLoop e object d rest (tbody, st)
      else if (case declaredProperty e (declaredProperties st) k of
                 None \<Rightarrow> False
               | Some desc \<Rightarrow> \<not> canShowProperty (world st) k desc object)
           then ownLoop e object d rest (tbody, st)
      else (case buildPropertyRow e k (getProp e (heap (world st) d) k) st of
              Inl exc \<Rightarrow> Inl exc
            | Inr (tr, st') \<Rightarrow> ownLoop e object d rest (tbody @ [tr], st')))"

text \<open>
  The object to inspect: the argument, or when it is \<^verbatim>\<open>undefined\<close> the first selected part
  (if the inspector follows the selection) or the object inspected already.
\<close>

definition resolveObject :: "'a inspector \<Rightarrow> obj \<Rightarrow> obj" where
  "resolveObject st object =
     (if object = OUndefined
      then (if inspectsSelection st then selectionFirst st else inspectedObject st)
      else object)"

text \<open>
  The test \<^verbatim>\<open>this.inspectObject === null\<close> of the source compares the method itself with
  \<^verbatim>\<open>null\<close> and is never true; it has no branch here. The table is appended to the container
  after both loops, so an exception in a loop leaves the container empty.
\<close>

definition inspectObject ::
  "'a ext \<Rightarrow> obj \<Rightarrow> 'a inspector \<Rightarrow> (error \<times> 'a inspector) + 'a inspector" where
  "inspectObject e object st =
     (let resolved = resolveObject st object in
      if resolved = ONull \<or> inspectedObject st = resolved
      then updateAllHTML e (st\<lparr>inspectedObject := resolved\<rparr>)
      else
        (let st1 = st\<lparr>inspectedObject := resolved, mainDiv := []\<rparr> in
         case dataOf (world st1) resolved of
           None \<Rightarrow> Inr st1
         | Some d \<Rightarrow>
             (let st2 = st1\<lparr>inspectedProperties := [], tabIndex := 0\<rparr> in
              case declaredLoop e resolved d (declaredProperties st2) ([], st2) of
                Inl exc \<Rightarrow> Inl exc
              | Inr (tbody, st3) \<Rightarrow>
                  (case (if includesOwnProperties st3
                         then ownLoop e resolved d (map fst (heap (world st3) d)) (tbody, st3)
                         else Inr (tbody, st3)) of
                     Inl exc \<Rightarrow> Inl exc
                   | Inr (tbody', st4) \<Rightarrow> Inr (st4\<lparr>mainDiv := tbody'\<rparr>)))))"

text \<open>
  The listeners the constructor registers on the diagram: a model change that finishes a
  transaction, and (when the inspector follows the selection) a change of selection, call
  \<^verbatim>\<open>inspectObject()\<close> without argument.
\<close>

definition modelChangedListener ::
  "'a ext \<Rightarrow> bool \<Rightarrow> 'a inspector \<Rightarrow> (error \<times> 'a inspector) + 'a inspector" where
  "modelChangedListener e isTransactionFinished st =
     (if isTransactionFinished then inspectObject e OUndefined st else Inr st)"

definition changedSelectionListener ::
  "'a ext \<Rightarrow> 'a inspector \<Rightarrow> (error \<times> 'a inspector) + 'a inspector" where
  "changedSelectionListener e st =
     (if inspectsSelection st then inspectObject e OUndefined st else Inr st)"

subsection \<open>updateAllProperties\<close>

text \<open>The type used for the conversion: the declared one, else one inferred from the old value.\<close>

definition inferType :: "'a jsval \<Rightarrow> string" where
  "inferType oldval =
     (if typeof oldval = ''boolean'' then ''boolean''
      else if typeof oldval = ''number'' then ''number''
      else (case oldval of
              JGo Point g \<Rightarrow> ''point''
            | JGo Size g \<Rightarrow> ''size''
            | JGo Rect g \<Rightarrow> ''rect''
            | JGo Spot g \<Rightarrow> ''spot''
            | JGo Margin g \<Rightarrow> ''margin''
            | _ \<Rightarrow> []))"

definition resolveType :: "'a propertyDesc option \<Rightarrow> 'a jsval \<Rightarrow> string" where
  "resolveType decProp oldval =
     (let type = (case decProp of
                    None \<Rightarrow> []
                  | Some desc \<Rightarrow> (case ptype desc of None \<Rightarrow> [] | Some t \<Rightarrow> t))
      in if type = [] then inferType oldval else type)"

text \<open>
  The \<^verbatim>\<open>switch\<close>. The value read from an input element is a string; the boolean case compares
  it with \<^verbatim>\<open>false\<close>, \<^verbatim>\<open>'false'\<close> and \<^verbatim>\<open>'0'\<close> by \<^verbatim>\<open>===\<close>.
\<close>

definition parseBoolean :: "'a jsval \<Rightarrow> bool" where
  "parseBoolean v = (\<not> (v = JBool False \<or> v = JStr ''false'' \<or> v = JStr ''0''))"

definition convertValue :: "'a ext \<Rightarrow> string \<Rightarrow> string \<Rightarrow> 'a jsval" where
  "convertValue e type v =
     (if type = ''boolean'' then JBool (parseBoolean (JStr v :: 'a jsval))
      else if type = ''number'' then JNum (parseFloat e v)
      else if type = ''arrayofnumber'' then convertToArrayOfNumber e v
      else if type = ''point'' then JGo Point (goParse e Point v)
      else if type = ''size'' then JGo Size (goParse e Size v)
      else if type = ''rect'' then JGo Rect (goParse e Rect v)
      else if type = ''spot'' then JGo Spot (goParse e Spot v)
      else if type = ''margin'' then JGo Margin (goParse e Margin v)
      else JStr v)"

text \<open>
  \<^verbatim>\<open>diagram.model.setDataProperty(data, name, value)\<close>: the call is recorded and the property
  of the data object is set.
\<close>

definition setDataProperty :: "nat \<Rightarrow> string \<Rightarrow> 'a jsval \<Rightarrow> 'a inspector \<Rightarrow> 'a inspector" where
  "setDataProperty d name v st =
     st\<lparr>world := (world st)\<lparr>heap := (heap (world st))(d := AList.update name v (heap (world st) d))\<rparr>,
        calls := calls st @ [SetDataProperty d name v]\<rparr>"

text \<open>The body of the loop, for one entry of \<^verbatim>\<open>_inspectedProperties\<close>.\<close>

definition commitRow ::
  "'a ext \<Rightarrow> nat \<Rightarrow> string \<times> nat \<Rightarrow> 'a inspector \<Rightarrow> (error \<times> 'a inspector) + 'a inspector" where
  "commitRow e d row st =
     (case row of (name, i) \<Rightarrow>
        (let v = ivalue (inputs st i);
             decProp = declaredProperty e (declaredProperties st) name
         in case canEditProperty e (world st) name decProp (inspectedObject st) of
              Inl err \<Rightarrow> Inl (err, st)
            | Inr editable \<Rightarrow>
                if \<not> editable then Inr st
                else
                  (let type = resolveType decProp (getProp e (heap (world st) d) name);
                       v' = convertValue e type v;
                       st1 = setInputValue e i v' st;
                       st2 = setDataProperty d name v' st1
                   in Inr (if propertyModified st2
                           then st2\<lparr>calls := calls st2 @ [PropertyModified name v']\<rparr>
                           else st2))))"

text \<open>The loop, with its \<^verbatim>\<open>hasOwnProperty\<close> test.\<close>

fun commitRows ::
  "'a ext \<Rightarrow> nat \<Rightarrow> (string \<times> nat) list \<Rightarrow> 'a inspector \<Rightarrow>
   (error \<times> 'a inspector) + 'a inspector" where
  "commitRows e d [] st = Inr st"
| "commitRows e d (row # rows) st =
     (case hasOwnPropertyCall (map fst (inspectedProperties st)) (fst row) of
        Inl err \<Rightarrow> Inl (err, st)
      | Inr own \<Rightarrow>
          if \<not> own then commitRows e d rows st
          else (case commitRow e d row st of
                  Inl exc \<Rightarrow> Inl exc
                | Inr st' \<Rightarrow> commitRows e d rows st'))"

definition updateAllProperties ::
  "'a ext \<Rightarrow> 'a inspector \<Rightarrow> (error \<times> 'a inspector) + 'a inspector" where
  "updateAllProperties e st =
     (case dataOf (world st) (inspectedObject st) of
        None \<Rightarrow> Inr st
      | Some d \<Rightarrow>
          (case commitRows e d (inspectedProperties st)
                  (st\<lparr>calls := calls st @ [StartTransaction ''set all properties'']\<rparr>) of
             Inl exc \<Rightarrow> Inl exc
           | Inr st' \<Rightarrow>
               Inr (st'\<lparr>calls := calls st' @ [CommitTransaction ''set all properties'']\<rparr>)))"

text \<open>
  An event on the input at address \<open>i\<close>: \<^verbatim>\<open>setprops\<close> runs if it is registered for the event.
\<close>

definition dispatchEvent ::
  "'a ext \<Rightarrow> nat \<Rightarrow> string \<Rightarrow> 'a inspector \<Rightarrow> (error \<times> 'a inspector) + 'a inspector" where
  "dispatchEvent e i ev st =
     (if ev \<in> set (listeners (inputs st i)) then updateAllProperties e st else Inr st)"

subsection \<open>Notions used to state the properties\<close>

text \<open>
  The value of a \<^verbatim>\<open>show\<close> or \<^verbatim>\<open>readOnly\<close> entry for an object and a property name: the
  default when the entry is absent, the boolean when it is one, and what the predicate
  returns when it is a function. A declared property passes the visibility check when its
  \<^verbatim>\<open>show\<close> entry, with default true, has the value true: the flag is not \<^verbatim>\<open>false\<close> and the
  predicate does not return false. It is declared read-only when its \<^verbatim>\<open>readOnly\<close> entry,
  with default false, has the value true.
\<close>

fun flagValue :: "bool \<Rightarrow> 'a flag \<Rightarrow> 'a world \<Rightarrow> obj \<Rightarrow> string \<Rightarrow> bool" where
  "flagValue dflt Unset w object k = dflt"
| "flagValue dflt (Flag b) w object k = b"
| "flagValue dflt (Predicate f) w object k = f w object k"

definition visible :: "'a world \<Rightarrow> obj \<Rightarrow> string \<Rightarrow> 'a propertyDesc \<Rightarrow> bool" where
  "visible w object k desc = flagValue True (pshow desc) w object k"

text \<open>A name is hidden when it is declared and its descriptor fails the visibility check.\<close>

definition hidden :: "'a inspector \<Rightarrow> obj \<Rightarrow> string \<Rightarrow> bool" where
  "hidden st object k =
     (case map_of (declaredProperties st) k of
        None \<Rightarrow> False
      | Some desc \<Rightarrow> \<not> visible (world st) object k desc)"

text \<open>
  The editability rule, for the data object \<open>d\<close> of the inspected object in the world \<open>w\<close>:
  the stored value is not a function, and the property is not declared read-only, by flag
  or by predicate.
\<close>

definition editableIn ::
  "'a ext \<Rightarrow> 'a world \<Rightarrow> obj \<Rightarrow> (string \<times> 'a propertyDesc) list \<Rightarrow> nat \<Rightarrow> string \<Rightarrow> bool" where
  "editableIn e w object decl d name \<longleftrightarrow>
     typeof (getProp e (heap w d) name) \<noteq> ''function'' \<and>
     (case map_of decl name of
        None \<Rightarrow> True
      | Some desc \<Rightarrow> \<not> flagValue False (preadOnly desc) w object name)"

text \<open>
  A property is editable in a state when \<^verbatim>\<open>canEditProperty\<close>, called as the commit calls it,
  answers \<^verbatim>\<open>true\<close>.
\<close>

definition editable :: "'a ext \<Rightarrow> 'a inspector \<Rightarrow> string \<Rightarrow> bool" where
  "editable e st name \<longleftrightarrow>
     canEditProperty e (world st) name (declaredProperty e (declaredProperties st) name)
       (inspectedObject st) = Inr True"

text \<open>
  The type of a property at commit: the declared type if there is a non-empty one, else the
  type inferred from the stored value, which is \<^verbatim>\<open>boolean\<close> for a boolean, \<^verbatim>\<open>number\<close> for a
  number, the name of the class for a geometry object, and none otherwise.
\<close>

fun inferredType :: "'a jsval \<Rightarrow> string" where
  "inferredType (JBool b) = ''boolean''"
| "inferredType (JNum n) = ''number''"
| "inferredType (JGo Point g) = ''point''"
| "inferredType (JGo Size g) = ''size''"
| "inferredType (JGo Rect g) = ''rect''"
| "inferredType (JGo Spot g) = ''spot''"
| "inferredType (JGo Margin g) = ''margin''"
| "inferredType v = []"

definition typeAtCommit :: "(string \<times> 'a propertyDesc) list \<Rightarrow> string \<Rightarrow> 'a jsval \<Rightarrow> string" where
  "typeAtCommit decl name stored =
     (case map_of decl name of
        None \<Rightarrow> inferredType stored
      | Some desc \<Rightarrow>
          (case ptype desc of
             None \<Rightarrow> inferredType stored
           | Some t \<Rightarrow> if t = [] then inferredType stored else t))"

text \<open>
  The blank-separated items of a text: its maximal runs of characters other than the blank,
  in order.
\<close>

fun itemsFrom :: "string \<Rightarrow> string \<Rightarrow> string list" where
  "itemsFrom run [] = (if run = [] then [] else [run])"
| "itemsFrom run (c # cs) =
     (if c = CHR '' '' then (if run = [] then itemsFrom [] cs else run # itemsFrom [] cs)
      else itemsFrom (run @ [c]) cs)"

definition items :: "string \<Rightarrow> string list" where
  "items text = itemsFrom [] text"

text \<open>
  The value a text stands for under a type: a boolean that is false for \<^verbatim>\<open>false\<close> and \<^verbatim>\<open>0\<close>
  only; the number \<^verbatim>\<open>parseFloat\<close> reads; for \<^verbatim>\<open>arrayofnumber\<close>, \<^verbatim>\<open>null\<close> for the text \<^verbatim>\<open>null\<close> and
  else the array of the numbers read from the blank-separated items; the geometry object
  the library parses; and the text itself under any other type.
\<close>

definition valueOfText :: "'a ext \<Rightarrow> string \<Rightarrow> string \<Rightarrow> 'a jsval" where
  "valueOfText e type text =
     (case map_of
        [(''boolean'', JBool (text \<noteq> ''false'' \<and> text \<noteq> ''0'')),
         (''number'', JNum (parseFloat e text)),
         (''arrayofnumber'',
            if text = ''null'' then JNull
            else JArray (map (\<lambda>item. JNum (parseFloat e item)) (items text))),
         (''point'', JGo Point (goParse e Point text)),
         (''size'', JGo Size (goParse e Size text)),
         (''rect'', JGo Rect (goParse e Rect text)),
         (''spot'', JGo Spot (goParse e Spot text)),
         (''margin'', JGo Margin (goParse e Margin text))] type of
        Some v \<Rightarrow> v
      | None \<Rightarrow> JStr text)"



text \<open>
  The data as the logged calls leave it: each \<^verbatim>\<open>setDataProperty\<close> sets the property of the
  data object, the other calls change nothing.
\<close>

fun applyCall :: "'a event \<Rightarrow> 'a world \<Rightarrow> 'a world" where
  "applyCall (SetDataProperty d name v) w =
     w\<lparr>heap := (heap w)(d := AList.update name v (heap w d))\<rparr>"
| "applyCall ev w = w"

definition applyCalls :: "'a event list \<Rightarrow> 'a world \<Rightarrow> 'a world" where
  "applyCalls evs w = fold applyCall evs w"

text \<open>
  What the commit owes a property whose row holds \<open>text\<close>, when the data are \<open>w\<close>: if the
  property is editable, one \<^verbatim>\<open>setDataProperty\<close> of the value the text stands for under the
  property's type, then one call of the callback if there is one; if not, nothing.
\<close>

definition propertyCalls ::
  "'a ext \<Rightarrow> 'a inspector \<Rightarrow> nat \<Rightarrow> 'a world \<Rightarrow> string \<Rightarrow> string \<Rightarrow> 'a event list" where
  "propertyCalls e st d w name text =
     (let v = valueOfText e
                (typeAtCommit (declaredProperties st) name (getProp e (heap w d) name)) text
      in if editableIn e w (inspectedObject st) (declaredProperties st) d name
         then SetDataProperty d name v # (if propertyModified st then [PropertyModified name v] else [])
         else [])"

text \<open>
  A value has a text when neither it nor, for an array or a list, any of its items is an
  object without \<^verbatim>\<open>toString\<close>.
\<close>

fun printable :: "'a ext \<Rightarrow> 'a jsval \<Rightarrow> bool" where
  "printable e (JObject x) = (objectToString e x \<noteq> None)"
| "printable e (JList xs) = list_all (printable e) xs"
| "printable e (JArray xs) = list_all (printable e) xs"
| "printable e v = True"


text \<open>
  The object a call \<^verbatim>\<open>inspectObject(object)\<close> is about: the argument, or without one the
  first selected part (\<^verbatim>\<open>null\<close> when nothing is selected) when the inspector tracks the
  selection, and else the object inspected already.
\<close>

fun firstSelected :: "nat list \<Rightarrow> obj" where
  "firstSelected [] = ONull"
| "firstSelected (p # ps) = OPart p"

fun objectOfCall :: "obj \<Rightarrow> bool \<Rightarrow> nat list \<Rightarrow> obj \<Rightarrow> obj" where
  "objectOfCall OUndefined True sel current = firstSelected sel"
| "objectOfCall OUndefined False sel current = current"
| "objectOfCall object tracking sel current = object"

text \<open>Recording rows in \<^verbatim>\<open>_inspectedProperties\<close>, one assignment per row.\<close>

abbreviation register :: "(string \<times> nat) list \<Rightarrow> (string \<times> nat) list \<Rightarrow> (string \<times> nat) list" where
  "register ip rows \<equiv> foldl (\<lambda>ip row. AList.update (fst row) (snd row) ip) ip rows"

text \<open>
  The state a run of row building leaves: the rows have consecutive new addresses, older
  inputs are untouched, each row's input is the one \<^verbatim>\<open>buildPropertyRow\<close> configures, and the
  rows are recorded in \<^verbatim>\<open>_inspectedProperties\<close>.
\<close>

definition built ::
  "'a ext \<Rightarrow> 'a inspector \<Rightarrow> (string \<times> nat) list \<Rightarrow> 'a inspector \<Rightarrow> bool" where
  "built e st rows st' \<longleftrightarrow>
     (\<exists>ins. st' = st\<lparr>tabIndex := tabIndex st + length rows,
                     nextInput := nextInput st + length rows,
                     inputs := ins,
                     inspectedProperties := register (inspectedProperties st) rows\<rparr>
        \<and> map snd rows = [nextInput st ..< nextInput st + length rows]
        \<and> (\<forall>j. j < nextInput st \<longrightarrow> ins j = inputs st j)
        \<and> (\<forall>row \<in> set rows. \<exists>v text b ti.
              canEditProperty e (world st) (fst row)
                (declaredProperty e (declaredProperties st) (fst row)) (inspectedObject st) = Inr b
              \<and> rowInput e (st\<lparr>tabIndex := ti\<rparr>) (fst row) v text b = Inr (ins (snd row))))"

text \<open>
  Two states that differ at most in what building rows touches: the tab index, the store
  of inputs (which only grows) and \<^verbatim>\<open>_inspectedProperties\<close>.
\<close>

definition rowsOnly :: "'a inspector \<Rightarrow> 'a inspector \<Rightarrow> bool" where
  "rowsOnly st st' \<longleftrightarrow>
     (\<exists>ti ni ins ip. st' = st\<lparr>tabIndex := ti, nextInput := ni, inputs := ins,
                                inspectedProperties := ip\<rparr>
        \<and> nextInput st \<le> ni)"


subsection \<open>An inspector to run\<close>

text \<open>
  A stand-in for the library and the browser in which opaque payloads are texts: a number
  is its decimal text, a function its source, a geometry object its stringified form, an
  object the text its \<^verbatim>\<open>toString\<close> returns, the empty payload being an object without
  \<^verbatim>\<open>toString\<close>. The canvas turns \<^verbatim>\<open>rgb(255, 0, 0)\<close> into \<^verbatim>\<open>#FF0000\<close>, as the source's comment
  on \<^verbatim>\<open>convertToColor\<close> has it, keeps other strings, and is black for other values; the
  browser knows the input type \<^verbatim>\<open>color\<close>, in either case of its first letter, and keeps
  strings as assigned. A diagram with one
  part, number 1, whose data is object 10 and which is selected; an inspector with five
  declared properties, one of them read-only by the predicate \<open>readOnlyIfPart\<close>, and a
  callback. \<open>exampleBuilt\<close> is the inspector after the selection has been inspected,
  \<open>exampleEdited\<close> after the user has typed into two of its inputs, \<open>exampleReadOnly\<close>
  after the model has then been made read-only.
\<close>

definition exampleExt :: "string ext" where
  "exampleExt =
     \<lparr> parseFloat = (\<lambda>s. s),
       goParse = (\<lambda>k s. s),
       goStringify = (\<lambda>k g. g),
       numberToString = (\<lambda>n. n),
       functionToString = (\<lambda>f. f),
       objectToString = (\<lambda>x. if x = [] then None else Some x),
       numberIsFalsy = (\<lambda>n. n = ''0'' \<or> n = ''NaN''),
       canvasFillStyle =
         (\<lambda>v. case v of
                JStr s \<Rightarrow> Some (if s = ''rgb(255, 0, 0)'' then ''#FF0000'' else s)
              | JObject x \<Rightarrow> (if x = [] then None else Some ''#000000'')
              | _ \<Rightarrow> Some ''#000000''),
       inputTypeOf = (\<lambda>t. if t = Some ''color'' \<or> t = Some ''Color'' then ''color'' else ''text''),
       domValue = (\<lambda>ty v. case v of JStr s \<Rightarrow> s | JBool b \<Rightarrow> (if b then ''true'' else ''false'') | JNum n \<Rightarrow> n | _ \<Rightarrow> []),
       objectPrototype =
         (\<lambda>k. if k \<in> set [''constructor'', ''toString'', ''toLocaleString'', ''valueOf'',
                            ''hasOwnProperty'', ''isPrototypeOf'', ''propertyIsEnumerable'']
              then Some (MemberFunction (''function '' @ k @ ''() { [native code] }''))
              else if k = ''__proto__'' then Some (MemberObject ''[object Object]'')
              else None) \<rparr>"

definition readOnlyIfPart :: "string world \<Rightarrow> obj \<Rightarrow> string \<Rightarrow> bool" where
  "readOnlyIfPart w object name = (case object of OPart p \<Rightarrow> True | _ \<Rightarrow> False)"

definition exampleProperties :: "(string \<times> string propertyDesc) list" where
  "exampleProperties =
     [(''key'', \<lparr>pshow = Unset, preadOnly = Flag True, ptype = None, pdefaultValue = JUndefined\<rparr>),
      (''secret'', \<lparr>pshow = Flag False, preadOnly = Unset, ptype = None, pdefaultValue = JUndefined\<rparr>),
      (''done'', \<lparr>pshow = Unset, preadOnly = Unset, ptype = Some ''boolean'', pdefaultValue = JUndefined\<rparr>),
      (''owner'', \<lparr>pshow = Unset, preadOnly = Predicate readOnlyIfPart, ptype = None, pdefaultValue = JUndefined\<rparr>),
      (''fill'', \<lparr>pshow = Unset, preadOnly = Unset, ptype = Some ''color'', pdefaultValue = JStr ''#ffffff''\<rparr>)]"

definition exampleOptions :: "string options" where
  "exampleOptions =
     \<lparr> optIncludesOwnProperties = None,
       optProperties = Some exampleProperties,
       optInspectSelection = None,
       optPropertyModified = True \<rparr>"

definition exampleData :: "(string \<times> string jsval) list" where
  "exampleData =
     [(''key'', JStr ''n1''), (''done'', JBool False), (''secret'', JStr ''s''),
      (''owner'', JStr ''ann''), (''fill'', JStr ''#ff0000''), (''text'', JStr ''hello''),
      (''__gohashid'', JNum ''17'')]"

definition exampleWorld :: "string world" where
  "exampleWorld =
     \<lparr> partData = (\<lambda>p. if p = 1 then Some 10 else None),
       heap = (\<lambda>d. if d = 10 then exampleData else []) \<rparr>"

definition exampleInitial :: "string inspector" where
  "exampleInitial = Inspector exampleOptions [1] False exampleWorld"

text \<open>The user types \<open>text\<close> into the input at address \<open>i\<close>.\<close>

definition userTypes :: "nat \<Rightarrow> string \<Rightarrow> 'a inspector \<Rightarrow> 'a inspector" where
  "userTypes i text st = st\<lparr>inputs := (inputs st)(i := (inputs st i)\<lparr>ivalue := text\<rparr>)\<rparr>"

definition exampleBuilt :: "string inspector" where
  "exampleBuilt = projr (inspectObject exampleExt OUndefined exampleInitial)"

definition exampleEdited :: "string inspector" where
  "exampleEdited = userTypes 4 ''changed'' (userTypes 1 ''0'' exampleBuilt)"

definition exampleReadOnly :: "string inspector" where
  "exampleReadOnly = exampleEdited\<lparr>isReadOnly := True\<rparr>"

text \<open>
  The same diagram with other data: object 20 is the data of part 2 and has a property
  \<^verbatim>\<open>blob\<close> holding an object without \<^verbatim>\<open>toString\<close>; object 30 has a property named
  \<^verbatim>\<open>constructor\<close>.
\<close>

definition otherWorld :: "string world" where
  "otherWorld =
     \<lparr> partData = (\<lambda>p. if p = 1 then Some 10 else if p = 2 then Some 20 else None),
       heap = (\<lambda>d. if d = 10 then exampleData
                   else if d = 20 then [(''key'', JStr ''n2''), (''blob'', JObject [])]
                   else if d = 30 then [(''key'', JStr ''n3''), (''constructor'', JStr ''acme'')]
                   else []) \<rparr>"

definition otherInitial :: "string inspector" where
  "otherInitial = Inspector exampleOptions [1] False otherWorld"

definition otherBuilt :: "string inspector" where
  "otherBuilt = projr (inspectObject exampleExt OUndefined otherInitial)"

text \<open>
  An inspector in which \<^verbatim>\<open>owner\<close> is read-only as long as \<^verbatim>\<open>done\<close> is \<^verbatim>\<open>false\<close>: the
  predicate reads the data of the inspected part.
\<close>

definition readOnlyUntilDone :: "string world \<Rightarrow> obj \<Rightarrow> string \<Rightarrow> bool" where
  "readOnlyUntilDone w object name =
     (case dataOf w object of
        None \<Rightarrow> False
      | Some d \<Rightarrow> map_of (heap w d) ''done'' = Some (JBool False))"

definition lockedProperties :: "(string \<times> string propertyDesc) list" where
  "lockedProperties =
     [(''done'', \<lparr>pshow = Unset, preadOnly = Unset, ptype = Some ''boolean'', pdefaultValue = JUndefined\<rparr>),
      (''owner'', \<lparr>pshow = Unset, preadOnly = Predicate readOnlyUntilDone, ptype = None, pdefaultValue = JUndefined\<rparr>)]"

definition lockedInitial :: "string inspector" where
  "lockedInitial =
     Inspector \<lparr> optIncludesOwnProperties = Some False,
                 optProperties = Some lockedProperties,
                 optInspectSelection = None,
                 optPropertyModified = True \<rparr> [1] False exampleWorld"

definition lockedBuilt :: "string inspector" where
  "lockedBuilt = projr (inspectObject exampleExt OUndefined lockedInitial)"

section \<open>Auxiliary facts\<close>

subsection \<open>The rules of the source and their statement\<close>

lemma canShowProperty_visible:
  "canShowProperty w k desc object = visible w object k desc"
  by (cases "pshow desc") (auto simp: canShowProperty_def visible_def split: bool.splits)

lemma declaredProperty_own:
  "map_of decl k = Some desc \<Longrightarrow> declaredProperty e decl k = Some desc"
  by (simp add: declaredProperty_def)

lemma declaredProperty_cases:
  "declaredProperty e decl k = map_of decl k
   \<or> (map_of decl k = None \<and> declaredProperty e decl k = Some inheritedDesc)"
  by (auto simp: declaredProperty_def split: option.splits)

lemma hidden_declaredProperty:
  "(case declaredProperty e (declaredProperties st) k of
      None \<Rightarrow> False
    | Some desc \<Rightarrow> \<not> canShowProperty (world st) k desc object) = hidden st object k"
  by (auto simp: declaredProperty_def hidden_def canShowProperty_visible visible_def inheritedDesc_def
      split: option.splits)


lemma canEditProperty_editableIn:
  assumes "dataOf w object = Some d"
  shows "canEditProperty e w name (declaredProperty e decl name) object
           = Inr (editableIn e w object decl d name)"
proof (cases "map_of decl name")
  case None
  then show ?thesis using assms
    by (auto simp: canEditProperty_def editableIn_def declaredProperty_def inheritedDesc_def
        split: option.splits)
next
  case (Some desc)
  then show ?thesis using assms
    by (cases "preadOnly desc")
       (auto simp: canEditProperty_def editableIn_def declaredProperty_def split: bool.splits)
qed

lemma editable_editableIn:
  assumes "dataOf (world st) (inspectedObject st) = Some d"
  shows "editable e st name =
     editableIn e (world st) (inspectedObject st) (declaredProperties st) d name"
  unfolding editable_def canEditProperty_editableIn [OF assms] by simp

lemma canEditProperty_predicate_true:
  assumes "preadOnly desc = Predicate f" and "f w object name"
    and "canEditProperty e w name (Some desc) object = Inr b"
  shows "\<not> b"
  using assms by (auto simp: canEditProperty_def split: option.splits if_splits)

lemma canEditProperty_readOnly_cases:
  assumes "dataOf w object = Some d"
  shows "canEditProperty e w name decProp object = Inr False \<longleftrightarrow>
     typeof (getProp e (heap w d) name) = ''function''
     \<or> (\<exists>desc. decProp = Some desc
           \<and> (preadOnly desc = Flag True \<or> (\<exists>f. preadOnly desc = Predicate f \<and> f w object name)))"
  using assms by (auto simp: canEditProperty_def split: option.splits flag.splits bool.splits)

lemma inferType_inferredType: "inferType v = inferredType v"
proof (cases v)
  case (JGo k g)
  then show ?thesis by (cases k) (simp_all add: inferType_def)
qed (simp_all add: inferType_def)

lemma resolveType_typeAtCommit:
  "resolveType (declaredProperty e decl name) stored = typeAtCommit decl name stored"
  by (auto simp: resolveType_def typeAtCommit_def declaredProperty_def inheritedDesc_def Let_def
      inferType_inferredType split: option.splits)

lemma jsSplit_not_Nil: "jsSplit c s \<noteq> []"
  by (induction s) (auto split: list.splits)

lemma itemsFrom_jsSplit:
  "itemsFrom run s =
     filter (\<lambda>str. str \<noteq> []) (case jsSplit CHR '' '' s of w # ws \<Rightarrow> (run @ w) # ws | [] \<Rightarrow> [])"
proof (induction s arbitrary: run)
  case Nil
  then show ?case by simp
next
  case (Cons c cs)
  obtain w ws where sp: "jsSplit CHR '' '' cs = w # ws"
    using jsSplit_not_Nil [of "CHR '' ''" cs] by (cases "jsSplit CHR '' '' cs") auto
  show ?case
  proof (cases "c = CHR '' ''")
    case True
    then show ?thesis using Cons.IH [of "[]"] sp by simp
  next
    case False
    then show ?thesis using Cons.IH [of "run @ [c]"] sp by simp
  qed
qed

lemma items_jsSplit: "items s = filter (\<lambda>str. str \<noteq> []) (jsSplit CHR '' '' s)"
proof -
  obtain w ws where sp: "jsSplit CHR '' '' s = w # ws"
    using jsSplit_not_Nil [of "CHR '' ''" s] by (cases "jsSplit CHR '' '' s") auto
  show ?thesis unfolding items_def itemsFrom_jsSplit sp by simp
qed

lemma convertValue_valueOfText: "convertValue e type v = valueOfText e type v"
  by (simp add: convertValue_def valueOfText_def convertToArrayOfNumber_def parseBoolean_def
      items_jsSplit)

lemma resolveObject_objectOfCall:
  "resolveObject st object =
     objectOfCall object (inspectsSelection st) (selection st) (inspectedObject st)"
  by (cases object; cases "inspectsSelection st"; cases "selection st")
     (simp_all add: resolveObject_def selectionFirst_def)

lemma applyCalls_Nil [simp]: "applyCalls [] w = w"
  by (simp add: applyCalls_def)

lemma applyCalls_append: "applyCalls (xs @ ys) w = applyCalls ys (applyCalls xs w)"
  by (simp add: applyCalls_def)

lemma applyCalls_Cons: "applyCalls (x # xs) w = applyCalls xs (applyCall x w)"
  by (simp add: applyCalls_def)

subsection \<open>Texts of values\<close>

lemma firstError_Inr:
  "\<forall>r \<in> set rs. \<not> isl r \<Longrightarrow> firstError rs = Inr (map projr rs)"
proof (induction rs)
  case Nil
  then show ?case by simp
next
  case (Cons r rs)
  then obtain x where "r = Inr x" by (cases r) auto
  with Cons show ?case by simp
qed

lemma firstError_Inl:
  "firstError rs = Inl err \<Longrightarrow> \<exists>r \<in> set rs. isl r"
  using firstError_Inr [of rs] by auto

lemma convertToString_printable:
  "printable e v \<Longrightarrow> \<not> isl (convertToString e v)"
proof (induction e v rule: convertToString.induct)
  case (4 e xs)
  then have "\<forall>r \<in> set (map (convertToString e) xs). \<not> isl r" by (auto simp: list_all_iff)
  from firstError_Inr [OF this] show ?case by simp
next
  case (5 e xs)
  then have "\<forall>r \<in> set (map (convertToString e) xs). \<not> isl r" by (auto simp: list_all_iff)
  from firstError_Inr [OF this] show ?case by simp
qed auto


lemma convertToString_Inl:
  "convertToString e v = Inl err \<Longrightarrow> \<not> printable e v"
  using convertToString_printable [of e v] by auto


subsection \<open>Input elements\<close>

lemma assignValue_simps [simp]:
  "disabled (assignValue e v inp) = disabled inp"
  "itype (assignValue e v inp) = itype inp"
  "listeners (assignValue e v inp) = listeners inp"
  "inputTabIndex (assignValue e v inp) = inputTabIndex inp"
  by (simp_all add: assignValue_def)

lemma applyDeclaredType_Inr:
  assumes "applyDeclaredType e desc v inp = Inr out"
  shows "disabled out = disabled inp"
    and "listeners out =
      (if ptype desc = Some ''color'' \<and> itype out = ''color''
       then listeners inp @ [''input'', ''change''] else listeners inp)"
  using assms by (auto simp: applyDeclaredType_def Let_def split: if_splits sum.splits)


lemma rowInput_Inr:
  assumes "rowInput e st k v text b = Inr inp"
  shows "disabled inp = (\<not> b \<or> isReadOnly st)"
    and "itype inp \<noteq> ''color'' \<Longrightarrow> listeners inp = [''blur'']"
    and "itype inp = ''color'' \<Longrightarrow> map_of (declaredProperties st) k = Some desc \<Longrightarrow>
         ptype desc = Some ''color'' \<Longrightarrow> listeners inp = [''input'', ''change'']"
    and "itype inp = ''color'' \<Longrightarrow>
         \<not> (\<exists>desc. map_of (declaredProperties st) k = Some desc \<and> ptype desc = Some ''color'') \<Longrightarrow>
         listeners inp = []"
proof -
  let ?input2 = "(assignValue e (JStr text) (createInput\<lparr>inputTabIndex := tabIndex st\<rparr>))\<lparr>disabled := \<not> b\<rparr>"
  from assms obtain input3 where
    i3: "(case declaredProperty e (declaredProperties st) k of
            None \<Rightarrow> Inr ?input2
          | Some desc \<Rightarrow> applyDeclaredType e desc v ?input2) = Inr input3"
    and inp: "inp = (let input4 = (if isReadOnly st then input3\<lparr>disabled := True\<rparr> else input3)
              in (if itype input4 \<noteq> ''color''
                      then input4\<lparr>listeners := listeners input4 @ [''blur'']\<rparr>
                      else input4))"
    by (auto simp: rowInput_def Let_def split: sum.splits)
  have ty: "itype inp = itype input3" unfolding inp by (simp add: Let_def)
  have d3: "disabled input3 = (\<not> b)"
    using i3 applyDeclaredType_Inr(1) by (fastforce split: option.splits)
  have l2: "listeners ?input2 = []" by (simp add: createInput_def)
  show "disabled inp = (\<not> b \<or> isReadOnly st)"
    unfolding inp using d3 by (simp add: Let_def)
  have l3: "listeners input3 =
      (case declaredProperty e (declaredProperties st) k of
         None \<Rightarrow> []
       | Some desc \<Rightarrow> if ptype desc = Some ''color'' \<and> itype input3 = ''color''
                      then [''input'', ''change''] else [])"
  proof (cases "declaredProperty e (declaredProperties st) k")
    case None
    with i3 l2 show ?thesis by auto
  next
    case (Some desc)
    with i3 have "applyDeclaredType e desc v ?input2 = Inr input3" by simp
    from applyDeclaredType_Inr(2) [OF this] l2 Some show ?thesis by simp
  qed
  show "itype inp \<noteq> ''color'' \<Longrightarrow> listeners inp = [''blur'']"
    unfolding inp using l3 by (auto simp: Let_def split: option.splits if_splits)
  show "itype inp = ''color'' \<Longrightarrow> map_of (declaredProperties st) k = Some desc \<Longrightarrow>
         ptype desc = Some ''color'' \<Longrightarrow> listeners inp = [''input'', ''change'']"
    using l3 ty declaredProperty_own [of "declaredProperties st" k desc e]
    unfolding inp by (auto simp: Let_def)
  show "itype inp = ''color'' \<Longrightarrow>
         \<not> (\<exists>desc. map_of (declaredProperties st) k = Some desc \<and> ptype desc = Some ''color'') \<Longrightarrow>
         listeners inp = []"
    using l3 ty declaredProperty_cases [of e "declaredProperties st" k]
    unfolding inp by (auto simp: Let_def inheritedDesc_def split: option.splits if_splits)
qed


lemma rowInput_cong:
  "declaredProperties s = declaredProperties t \<Longrightarrow> tabIndex s = tabIndex t \<Longrightarrow>
   isReadOnly s = isReadOnly t \<Longrightarrow> rowInput e s k v text b = rowInput e t k v text b"
  by (simp add: rowInput_def Let_def split: sum.splits)

subsection \<open>Building rows\<close>

lemma buildPropertyRow_Inr:
  assumes "buildPropertyRow e k v st = Inr (tr, st1)"
  shows "\<exists>b text inp.
       canEditProperty e (world st) k (declaredProperty e (declaredProperties st) k) (inspectedObject st) = Inr b
     \<and> convertToString e v = Inr text
     \<and> rowInput e st k v text b = Inr inp
     \<and> tr = (k, nextInput st)
     \<and> st1 = st\<lparr>tabIndex := Suc (tabIndex st), nextInput := Suc (nextInput st),
                inputs := (inputs st)(nextInput st := inp),
                inspectedProperties := AList.update k (nextInput st) (inspectedProperties st)\<rparr>"
  using assms by (auto simp: buildPropertyRow_def Let_def split: sum.splits)

lemma buildPropertyRow_Inl:
  assumes "buildPropertyRow e k v st = Inl (err, st1)"
  shows "st1 = st\<lparr>tabIndex := Suc (tabIndex st)\<rparr>"
  using assms by (auto simp: buildPropertyRow_def Let_def split: sum.splits)


lemma rowsOnly_refl: "rowsOnly st st"
proof -
  have "st = st\<lparr>tabIndex := tabIndex st, nextInput := nextInput st, inputs := inputs st,
                inspectedProperties := inspectedProperties st\<rparr>" by simp
  then show ?thesis unfolding rowsOnly_def by (metis order_refl)
qed

lemma rowsOnly_trans:
  assumes "rowsOnly s t" and "rowsOnly t u"
  shows "rowsOnly s u"
proof -
  from assms(1) obtain ti ni ins ip where
    t: "t = s\<lparr>tabIndex := ti, nextInput := ni, inputs := ins, inspectedProperties := ip\<rparr>"
    and n: "nextInput s \<le> ni" unfolding rowsOnly_def by blast
  from assms(2) obtain ti' ni' ins' ip' where
    u: "u = t\<lparr>tabIndex := ti', nextInput := ni', inputs := ins', inspectedProperties := ip'\<rparr>"
    and n': "nextInput t \<le> ni'" unfolding rowsOnly_def by blast
  have "u = s\<lparr>tabIndex := ti', nextInput := ni', inputs := ins', inspectedProperties := ip'\<rparr>"
    unfolding u t by simp
  moreover have "nextInput s \<le> ni'" using n n' unfolding t by simp
  ultimately show ?thesis unfolding rowsOnly_def by blast
qed

lemma rowsOnly_frame:
  assumes "rowsOnly st st'"
  shows "world st' = world st" "declaredProperties st' = declaredProperties st"
    "inspectedObject st' = inspectedObject st" "includesOwnProperties st' = includesOwnProperties st"
    "isReadOnly st' = isReadOnly st" "calls st' = calls st" "mainDiv st' = mainDiv st"
    "propertyModified st' = propertyModified st" "selection st' = selection st"
    "inspectsSelection st' = inspectsSelection st" "nextInput st \<le> nextInput st'"
  using assms unfolding rowsOnly_def by auto

lemma buildPropertyRow_rowsOnly:
  "buildPropertyRow e k v st = Inr (tr, st1) \<Longrightarrow> rowsOnly st st1"
  "buildPropertyRow e k v st = Inl (err, st2) \<Longrightarrow> rowsOnly st st2"
proof -
  assume "buildPropertyRow e k v st = Inr (tr, st1)"
  from buildPropertyRow_Inr [OF this] obtain inp where
    "st1 = st\<lparr>tabIndex := Suc (tabIndex st), nextInput := Suc (nextInput st),
                inputs := (inputs st)(nextInput st := inp),
                inspectedProperties := AList.update k (nextInput st) (inspectedProperties st)\<rparr>"
    by blast
  moreover have "nextInput st \<le> Suc (nextInput st)" by simp
  ultimately show "rowsOnly st st1" unfolding rowsOnly_def by blast
next
  assume "buildPropertyRow e k v st = Inl (err, st2)"
  from buildPropertyRow_Inl [OF this]
  have "st2 = st\<lparr>tabIndex := Suc (tabIndex st), nextInput := nextInput st, inputs := inputs st,
                inspectedProperties := inspectedProperties st\<rparr>" by simp
  then show "rowsOnly st st2" unfolding rowsOnly_def by (metis order_refl)
qed

lemma built_Nil: "built e st [] st"
  unfolding built_def by (intro exI [of _ "inputs st"]) simp

lemma built_rowsOnly:
  assumes "built e st rows st'"
  shows "rowsOnly st st'"
proof -
  from assms obtain ins where
    "st' = st\<lparr>tabIndex := tabIndex st + length rows,
                     nextInput := nextInput st + length rows,
                     inputs := ins,
                     inspectedProperties := register (inspectedProperties st) rows\<rparr>"
    unfolding built_def by blast
  moreover have "nextInput st \<le> nextInput st + length rows" by simp
  ultimately show ?thesis unfolding rowsOnly_def by blast
qed

lemmas built_frame = rowsOnly_frame [OF built_rowsOnly]

lemma built_step:
  assumes b: "buildPropertyRow e k v st = Inr (tr, st1)"
    and rest: "built e st1 rows st'"
  shows "built e st (tr # rows) st'" and "tr = (k, nextInput st)"
proof -
  from buildPropertyRow_Inr [OF b] obtain bb str inp where
    cb: "canEditProperty e (world st) k (declaredProperty e (declaredProperties st) k) (inspectedObject st) = Inr bb"
    and ri: "rowInput e st k v str bb = Inr inp"
    and tr: "tr = (k, nextInput st)"
    and st1: "st1 = st\<lparr>tabIndex := Suc (tabIndex st), nextInput := Suc (nextInput st),
              inputs := (inputs st)(nextInput st := inp),
              inspectedProperties := AList.update k (nextInput st) (inspectedProperties st)\<rparr>"
    by blast
  show "tr = (k, nextInput st)" by fact
  from rest obtain ins where
    eq: "st' = st1\<lparr>tabIndex := tabIndex st1 + length rows,
                     nextInput := nextInput st1 + length rows,
                     inputs := ins,
                     inspectedProperties :=
                       foldl (\<lambda>ip row. AList.update (fst row) (snd row) ip) (inspectedProperties st1) rows\<rparr>"
    and ids: "map snd rows = [nextInput st1 ..< nextInput st1 + length rows]"
    and old: "\<forall>j. j < nextInput st1 \<longrightarrow> ins j = inputs st1 j"
    and new: "\<forall>row \<in> set rows. \<exists>v text b ti.
              canEditProperty e (world st1) (fst row) (declaredProperty e (declaredProperties st1) (fst row)) (inspectedObject st1) = Inr b
              \<and> rowInput e (st1\<lparr>tabIndex := ti\<rparr>) (fst row) v text b = Inr (ins (snd row))"
    unfolding built_def by blast
  have eq': "st' = st\<lparr>tabIndex := tabIndex st + length (tr # rows),
                     nextInput := nextInput st + length (tr # rows),
                     inputs := ins,
                     inspectedProperties :=
                       foldl (\<lambda>ip row. AList.update (fst row) (snd row) ip) (inspectedProperties st) (tr # rows)\<rparr>"
    unfolding eq st1 tr by simp
  have ids': "map snd (tr # rows) = [nextInput st ..< nextInput st + length (tr # rows)]"
    using ids unfolding st1 tr by (simp add: upt_conv_Cons del: upt_Suc)
  have old': "\<forall>j. j < nextInput st \<longrightarrow> ins j = inputs st j"
    using old unfolding st1 by simp
  have here: "ins (nextInput st) = inp"
    using old unfolding st1 by simp
  have ri': "rowInput e (st\<lparr>tabIndex := tabIndex st\<rparr>) k v str bb = Inr (ins (nextInput st))"
    using ri here by simp
  have new': "\<forall>row \<in> set (tr # rows). \<exists>v text b ti.
              canEditProperty e (world st) (fst row) (declaredProperty e (declaredProperties st) (fst row)) (inspectedObject st) = Inr b
              \<and> rowInput e (st\<lparr>tabIndex := ti\<rparr>) (fst row) v text b = Inr (ins (snd row))"
  proof
    fix row assume "row \<in> set (tr # rows)"
    then consider "row = tr" | "row \<in> set rows" by auto
    then show "\<exists>v text b ti.
              canEditProperty e (world st) (fst row) (declaredProperty e (declaredProperties st) (fst row)) (inspectedObject st) = Inr b
              \<and> rowInput e (st\<lparr>tabIndex := ti\<rparr>) (fst row) v text b = Inr (ins (snd row))"
    proof cases
      case 1
      have "rowInput e (st\<lparr>tabIndex := tabIndex st\<rparr>) (fst row) v str bb = Inr (ins (snd row))"
        using ri' 1 unfolding tr by simp
      moreover have "canEditProperty e (world st) (fst row) (declaredProperty e (declaredProperties st) (fst row)) (inspectedObject st) = Inr bb"
        using cb 1 unfolding tr by simp
      ultimately show ?thesis by blast
    next
      case 2
      with new obtain v' str' b' ti' where
        c: "canEditProperty e (world st1) (fst row) (declaredProperty e (declaredProperties st1) (fst row)) (inspectedObject st1) = Inr b'"
        and i: "rowInput e (st1\<lparr>tabIndex := ti'\<rparr>) (fst row) v' str' b' = Inr (ins (snd row))"
        by blast
      have "rowInput e (st1\<lparr>tabIndex := ti'\<rparr>) (fst row) v' str' b' = rowInput e (st\<lparr>tabIndex := ti'\<rparr>) (fst row) v' str' b'"
        by (rule rowInput_cong) (simp_all add: st1)
      with c i show ?thesis unfolding st1 by auto
    qed
  qed
  show "built e st (tr # rows) st'"
    unfolding built_def using eq' ids' old' new' by blast
qed

lemma built_registry:
  assumes "built e st rows st'"
  shows "inspectedProperties st' =
      foldl (\<lambda>ip row. AList.update (fst row) (snd row) ip) (inspectedProperties st) rows"
    and "map snd rows = [nextInput st ..< nextInput st + length rows]"
  using assms unfolding built_def by auto

lemma built_disabled:
  assumes b: "built e st rows st'" and row: "row \<in> set rows"
    and decl: "map_of (declaredProperties st) (fst row) = Some desc"
    and pred: "preadOnly desc = Predicate f"
    and true: "f (world st) (inspectedObject st) (fst row)"
  shows "disabled (inputs st' (snd row))"
proof -
  from b obtain ins where
    ins: "inputs st' = ins"
    and new: "\<forall>row \<in> set rows. \<exists>v text b ti.
              canEditProperty e (world st) (fst row) (declaredProperty e (declaredProperties st) (fst row)) (inspectedObject st) = Inr b
              \<and> rowInput e (st\<lparr>tabIndex := ti\<rparr>) (fst row) v text b = Inr (ins (snd row))"
    unfolding built_def by auto
  from new row obtain v str bb ti where
    c: "canEditProperty e (world st) (fst row) (declaredProperty e (declaredProperties st) (fst row)) (inspectedObject st) = Inr bb"
    and i: "rowInput e (st\<lparr>tabIndex := ti\<rparr>) (fst row) v str bb = Inr (ins (snd row))"
    by blast
  from canEditProperty_predicate_true [OF pred true] c declaredProperty_own [OF decl, of e]
  have "\<not> bb" by simp
  with rowInput_Inr(1) [OF i] show ?thesis unfolding ins by simp
qed


lemma names_register: "fst ` set (register ip rows) = fst ` set ip \<union> fst ` set rows"
  by (induction rows arbitrary: ip) (auto simp: dom_update)


lemma built_trans:
  assumes 1: "built e st rows1 st1" and 2: "built e st1 rows2 st2"
  shows "built e st (rows1 @ rows2) st2"
proof -
  from 1 obtain ins1 where
    eq1: "st1 = st\<lparr>tabIndex := tabIndex st + length rows1,
                     nextInput := nextInput st + length rows1,
                     inputs := ins1,
                     inspectedProperties := register (inspectedProperties st) rows1\<rparr>"
    and ids1: "map snd rows1 = [nextInput st ..< nextInput st + length rows1]"
    and old1: "\<forall>j. j < nextInput st \<longrightarrow> ins1 j = inputs st j"
    and new1: "\<forall>row \<in> set rows1. \<exists>v text b ti.
              canEditProperty e (world st) (fst row) (declaredProperty e (declaredProperties st) (fst row)) (inspectedObject st) = Inr b
              \<and> rowInput e (st\<lparr>tabIndex := ti\<rparr>) (fst row) v text b = Inr (ins1 (snd row))"
    unfolding built_def by blast
  from 2 obtain ins2 where
    eq2: "st2 = st1\<lparr>tabIndex := tabIndex st1 + length rows2,
                     nextInput := nextInput st1 + length rows2,
                     inputs := ins2,
                     inspectedProperties := register (inspectedProperties st1) rows2\<rparr>"
    and ids2: "map snd rows2 = [nextInput st1 ..< nextInput st1 + length rows2]"
    and old2: "\<forall>j. j < nextInput st1 \<longrightarrow> ins2 j = inputs st1 j"
    and new2: "\<forall>row \<in> set rows2. \<exists>v text b ti.
              canEditProperty e (world st1) (fst row) (declaredProperty e (declaredProperties st1) (fst row)) (inspectedObject st1) = Inr b
              \<and> rowInput e (st1\<lparr>tabIndex := ti\<rparr>) (fst row) v text b = Inr (ins2 (snd row))"
    unfolding built_def by blast
  have n1: "nextInput st1 = nextInput st + length rows1" and i1: "inputs st1 = ins1"
    unfolding eq1 by simp_all
  have eq: "st2 = st\<lparr>tabIndex := tabIndex st + length (rows1 @ rows2),
                     nextInput := nextInput st + length (rows1 @ rows2),
                     inputs := ins2,
                     inspectedProperties := register (inspectedProperties st) (rows1 @ rows2)\<rparr>"
    unfolding eq2 eq1 by (simp add: add.assoc)
  have ids: "map snd (rows1 @ rows2) = [nextInput st ..< nextInput st + length (rows1 @ rows2)]"
  proof -
    have "[nextInput st ..< nextInput st + length rows1 + length rows2] =
        [nextInput st ..< nextInput st + length rows1] @
        [nextInput st + length rows1 ..< nextInput st + length rows1 + length rows2]"
      by (rule upt_add_eq_append) simp
    then show ?thesis using ids1 ids2 unfolding n1 by (simp add: add.assoc del: upt_Suc)
  qed
  have old: "\<forall>j. j < nextInput st \<longrightarrow> ins2 j = inputs st j"
    using old1 old2 unfolding n1 i1 by simp
  have new: "\<forall>row \<in> set (rows1 @ rows2). \<exists>v text b ti.
              canEditProperty e (world st) (fst row) (declaredProperty e (declaredProperties st) (fst row)) (inspectedObject st) = Inr b
              \<and> rowInput e (st\<lparr>tabIndex := ti\<rparr>) (fst row) v text b = Inr (ins2 (snd row))"
  proof
    fix row assume "row \<in> set (rows1 @ rows2)"
    then consider "row \<in> set rows1" | "row \<in> set rows2" by auto
    then show "\<exists>v text b ti.
              canEditProperty e (world st) (fst row) (declaredProperty e (declaredProperties st) (fst row)) (inspectedObject st) = Inr b
              \<and> rowInput e (st\<lparr>tabIndex := ti\<rparr>) (fst row) v text b = Inr (ins2 (snd row))"
    proof cases
      case 1
      then have "snd row \<in> set (map snd rows1)" by simp
      then have "snd row < nextInput st1" unfolding ids1 n1 by simp
      with old2 have "ins2 (snd row) = ins1 (snd row)" unfolding i1 by simp
      with new1 1 show ?thesis by auto
    next
      case 2
      with new2 obtain v str b ti where
        c: "canEditProperty e (world st1) (fst row) (declaredProperty e (declaredProperties st1) (fst row)) (inspectedObject st1) = Inr b"
        and i: "rowInput e (st1\<lparr>tabIndex := ti\<rparr>) (fst row) v str b = Inr (ins2 (snd row))"
        by blast
      have "rowInput e (st1\<lparr>tabIndex := ti\<rparr>) (fst row) v str b = rowInput e (st\<lparr>tabIndex := ti\<rparr>) (fst row) v str b"
        by (rule rowInput_cong) (simp_all add: eq1)
      with c i show ?thesis unfolding eq1 by auto
    qed
  qed
  show ?thesis unfolding built_def using eq ids old new by blast
qed

subsection \<open>The two loops of inspectObject\<close>

lemma hasOwnPropertyCall_cases:
  "(''hasOwnProperty'' \<in> set ks \<and> hasOwnPropertyCall ks k = Inl TypeError)
   \<or> (''hasOwnProperty'' \<notin> set ks \<and> hasOwnPropertyCall ks k = Inr (k \<in> set ks))"
  by (simp add: hasOwnPropertyCall_def)

lemma declaredLoop_Inl:
  "declaredLoop e object d decl (tbody, st) = Inl (err, st') \<Longrightarrow> rowsOnly st st'"
proof (induction decl arbitrary: tbody st)
  case Nil
  then show ?case by simp
next
  case (Cons p rest)
  obtain k val where p: "p = (k, val)" by (cases p)
  let ?v = "(let defaultValue0 = JStr [];
                 defaultValue1 = (if pdefaultValue val \<noteq> JUndefined then pdefaultValue val
                                  else defaultValue0);
                 defaultValue2 = (if getProp e (heap (world st) d) k \<noteq> JUndefined
                                  then getProp e (heap (world st) d) k
                                  else defaultValue1)
             in (if falsy e defaultValue2 then JStr [] else defaultValue2))"
  from hasOwnPropertyCall_cases [of "map fst (declaredProperties st)" k]
  show ?case
  proof (elim disjE conjE)
    assume "hasOwnPropertyCall (map fst (declaredProperties st)) k = Inl TypeError"
    with Cons.prems have "st' = st" by (simp add: p)
    then show ?thesis by (simp add: rowsOnly_refl)
  next
    assume own: "hasOwnPropertyCall (map fst (declaredProperties st)) k
        = Inr (k \<in> set (map fst (declaredProperties st)))"
    show ?thesis
    proof (cases "k \<in> set (map fst (declaredProperties st)) \<and> canShowProperty (world st) k val object")
      case False
      with own Cons.prems have "declaredLoop e object d rest (tbody, st) = Inl (err, st')"
        by (auto simp: p split: if_splits)
      from Cons.IH [OF this] show ?thesis .
    next
      case True
      show ?thesis
      proof (cases "buildPropertyRow e k ?v st")
        case (Inl exc)
        with True own Cons.prems have "buildPropertyRow e k ?v st = Inl (err, st')"
          by (simp add: p Let_def)
        from buildPropertyRow_rowsOnly(2) [OF this] show ?thesis .
      next
        case (Inr res)
        obtain tr st1 where res: "res = (tr, st1)" by (cases res)
        from Inr res True own Cons.prems
        have "declaredLoop e object d rest (tbody @ [tr], st1) = Inl (err, st')"
          by (simp add: p Let_def)
        from Cons.IH [OF this] buildPropertyRow_rowsOnly(1) [OF Inr [unfolded res]]
        show ?thesis by (blast intro: rowsOnly_trans)
      qed
    qed
  qed
qed

lemma declaredLoop_Inr:
  assumes "declaredLoop e object d decl (tbody, st) = Inr (tb, st')"
    and "fst ` set decl \<subseteq> fst ` set (declaredProperties st)"
  shows "\<exists>rows. tb = tbody @ rows \<and> built e st rows st'
     \<and> map fst rows = map fst (filter (\<lambda>p. visible (world st) object (fst p) (snd p)) decl)"
  using assms
proof (induction decl arbitrary: tbody st)
  case Nil
  then show ?case using built_Nil [of e st] by simp
next
  case (Cons p rest)
  obtain k val where p: "p = (k, val)" by (cases p)
  let ?v = "(let defaultValue0 = JStr [];
                 defaultValue1 = (if pdefaultValue val \<noteq> JUndefined then pdefaultValue val
                                  else defaultValue0);
                 defaultValue2 = (if getProp e (heap (world st) d) k \<noteq> JUndefined
                                  then getProp e (heap (world st) d) k
                                  else defaultValue1)
             in (if falsy e defaultValue2 then JStr [] else defaultValue2))"
  from Cons.prems(2) have kin: "k \<in> set (map fst (declaredProperties st))"
    and sub: "fst ` set rest \<subseteq> fst ` set (declaredProperties st)"
    by (auto simp: p)
  from hasOwnPropertyCall_cases [of "map fst (declaredProperties st)" k] Cons.prems(1) kin
  have own: "hasOwnPropertyCall (map fst (declaredProperties st)) k = Inr True"
    by (auto simp: p)
  show ?case
  proof (cases "canShowProperty (world st) k val object")
    case False
    with own Cons.prems(1) have "declaredLoop e object d rest (tbody, st) = Inr (tb, st')"
      by (simp add: p)
    from Cons.IH [OF this sub] False show ?thesis
      by (simp add: p canShowProperty_visible)
  next
    case True
    show ?thesis
    proof (cases "buildPropertyRow e k ?v st")
      case (Inl exc)
      with True own Cons.prems(1) show ?thesis by (simp add: p Let_def)
    next
      case (Inr res)
      obtain tr st1 where res: "res = (tr, st1)" by (cases res)
      note b = Inr [unfolded res]
      note f1 = rowsOnly_frame [OF buildPropertyRow_rowsOnly(1) [OF b]]
      from Inr res True own Cons.prems(1)
      have run: "declaredLoop e object d rest (tbody @ [tr], st1) = Inr (tb, st')"
        by (simp add: p Let_def)
      from sub f1 have sub1: "fst ` set rest \<subseteq> fst ` set (declaredProperties st1)" by simp
      from Cons.IH [OF run sub1] obtain rows where
        tb: "tb = (tbody @ [tr]) @ rows"
        and bl: "built e st1 rows st'"
        and names: "map fst rows = map fst (filter (\<lambda>p. visible (world st1) object (fst p) (snd p)) rest)"
        by blast
      have "tb = tbody @ (tr # rows)" using tb by simp
      moreover have "built e st (tr # rows) st'" and tr: "tr = (k, nextInput st)"
        using built_step [OF b bl] by blast+
      moreover have "map fst (tr # rows) =
          map fst (filter (\<lambda>p. visible (world st) object (fst p) (snd p)) (p # rest))"
        using names True tr f1 by (simp add: p canShowProperty_visible)
      ultimately show ?thesis by blast
    qed
  qed
qed


lemma map_of_update_None:
  "map_of (AList.update k i ip) k' = None \<longleftrightarrow> k' \<noteq> k \<and> map_of ip k' = None"
  by (simp add: update_conv')

lemma ownLoop_Inl:
  "ownLoop e object d ks (tbody, st) = Inl (err, st') \<Longrightarrow> rowsOnly st st'"
proof (induction ks arbitrary: tbody st)
  case Nil
  then show ?case by simp
next
  case (Cons k rest)
  let ?skip = "k = ''__gohashid'' \<or> inspectedPropertyTruthy e (inspectedProperties st) k
      \<or> hidden st object k"
  show ?case
  proof (cases ?skip)
    case True
    with Cons.prems have "ownLoop e object d rest (tbody, st) = Inl (err, st')"
      by (auto simp: hidden_declaredProperty split: if_splits)
    from Cons.IH [OF this] show ?thesis .
  next
    case False
    let ?v = "getProp e (heap (world st) d) k"
    show ?thesis
    proof (cases "buildPropertyRow e k ?v st")
      case (Inl exc)
      with False Cons.prems have "buildPropertyRow e k ?v st = Inl (err, st')"
        by (simp add: hidden_declaredProperty)
      from buildPropertyRow_rowsOnly(2) [OF this] show ?thesis .
    next
      case (Inr res)
      obtain tr st1 where res: "res = (tr, st1)" by (cases res)
      from Inr res False Cons.prems
      have "ownLoop e object d rest (tbody @ [tr], st1) = Inl (err, st')"
        by (simp add: hidden_declaredProperty)
      from Cons.IH [OF this] buildPropertyRow_rowsOnly(1) [OF Inr [unfolded res]]
      show ?thesis by (blast intro: rowsOnly_trans)
    qed
  qed
qed

lemma ownLoop_Inr:
  assumes "ownLoop e object d ks (tbody, st) = Inr (tb, st')"
  shows "\<exists>rows. tb = tbody @ rows \<and> built e st rows st'
     \<and> set (map fst rows) =
         {k \<in> set ks. k \<noteq> ''__gohashid'' \<and> \<not> inspectedPropertyTruthy e (inspectedProperties st) k
                       \<and> \<not> hidden st object k}
     \<and> distinct (map fst rows)"
  using assms
proof (induction ks arbitrary: tbody st)
  case Nil
  then show ?case using built_Nil [of e st] by simp
next
  case (Cons k rest)
  let ?skip = "k = ''__gohashid'' \<or> inspectedPropertyTruthy e (inspectedProperties st) k
      \<or> hidden st object k"
  show ?case
  proof (cases ?skip)
    case True
    with Cons.prems have "ownLoop e object d rest (tbody, st) = Inr (tb, st')"
      by (auto simp: hidden_declaredProperty split: if_splits)
    moreover have "{k' \<in> set (k # rest). k' \<noteq> ''__gohashid''
          \<and> \<not> inspectedPropertyTruthy e (inspectedProperties st) k' \<and> \<not> hidden st object k'}
        = {k' \<in> set rest. k' \<noteq> ''__gohashid''
          \<and> \<not> inspectedPropertyTruthy e (inspectedProperties st) k' \<and> \<not> hidden st object k'}"
      using True by auto
    ultimately show ?thesis using Cons.IH [of tbody st] by simp
  next
    case False
    let ?v = "getProp e (heap (world st) d) k"
    show ?thesis
    proof (cases "buildPropertyRow e k ?v st")
      case (Inl exc)
      with False Cons.prems show ?thesis by (simp add: hidden_declaredProperty)
    next
      case (Inr res)
      obtain tr st1 where res: "res = (tr, st1)" by (cases res)
      note b = Inr [unfolded res]
      note f1 = rowsOnly_frame [OF buildPropertyRow_rowsOnly(1) [OF b]]
      from buildPropertyRow_Inr [OF b]
      have ip1: "inspectedProperties st1 = AList.update k (nextInput st) (inspectedProperties st)"
        by auto
      from Inr res False Cons.prems
      have run: "ownLoop e object d rest (tbody @ [tr], st1) = Inr (tb, st')"
        by (simp add: hidden_declaredProperty)
      from Cons.IH [OF run] obtain rows where
        tb: "tb = (tbody @ [tr]) @ rows"
        and bl: "built e st1 rows st'"
        and names: "set (map fst rows) =
           {k \<in> set rest. k \<noteq> ''__gohashid'' \<and> \<not> inspectedPropertyTruthy e (inspectedProperties st1) k
                           \<and> \<not> hidden st1 object k}"
        and dist: "distinct (map fst rows)"
        by blast
      have hd: "hidden st1 object = hidden st object"
        by (rule ext) (simp add: hidden_def f1 cong: option.case_cong)
      have tr1: "\<And>k'. inspectedPropertyTruthy e (inspectedProperties st1) k' \<longleftrightarrow>
          k' = k \<or> inspectedPropertyTruthy e (inspectedProperties st) k'"
        unfolding inspectedPropertyTruthy_def ip1 using map_of_update_None [of k "nextInput st" "inspectedProperties st"]
        by auto
      have "tb = tbody @ (tr # rows)" using tb by simp
      moreover have "built e st (tr # rows) st'" and tr: "tr = (k, nextInput st)"
        using built_step [OF b bl] by blast+
      moreover have "set (map fst (tr # rows)) =
          {k' \<in> set (k # rest). k' \<noteq> ''__gohashid''
             \<and> \<not> inspectedPropertyTruthy e (inspectedProperties st) k' \<and> \<not> hidden st object k'}"
        using names False unfolding tr hd tr1 by auto
      moreover have "distinct (map fst (tr # rows))"
        using dist names unfolding tr tr1 by auto
      ultimately show ?thesis by blast
    qed
  qed
qed


subsection \<open>inspectObject\<close>

lemma stateAfter_simps [simp]:
  "stateAfter (Inr st) = st"
  "stateAfter (Inl (err, st)) = st"
  by (simp_all add: stateAfter_def)








lemma inspectObject_no_data:
  assumes "resolveObject st object \<noteq> ONull" and "inspectedObject st \<noteq> resolveObject st object"
    and "dataOf (world st) (resolveObject st object) = None"
  shows "inspectObject e object st = Inr (st\<lparr>inspectedObject := resolveObject st object, mainDiv := []\<rparr>)"
  using assms by (simp add: inspectObject_def Let_def)

lemma inspectObject_thrown:
  assumes ne: "resolveObject st object \<noteq> ONull"
    and diff: "inspectedObject st \<noteq> resolveObject st object"
    and run: "inspectObject e object st = Inl (err, st')"
  shows "rowsOnly (st\<lparr>inspectedObject := resolveObject st object, mainDiv := [],
                      inspectedProperties := [], tabIndex := 0\<rparr>) st'"
proof -
  let ?r = "resolveObject st object"
  define st2 where "st2 = st\<lparr>inspectedObject := ?r, mainDiv := [], inspectedProperties := [], tabIndex := 0\<rparr>"
  from run ne diff obtain d where data: "dataOf (world st) ?r = Some d"
    by (cases "dataOf (world st) ?r") (auto simp: inspectObject_def Let_def)
  show ?thesis
  proof (cases "declaredLoop e ?r d (declaredProperties st2) ([], st2)")
    case (Inl exc)
    with run ne diff data have "declaredLoop e ?r d (declaredProperties st2) ([], st2) = Inl (err, st')"
      by (simp add: inspectObject_def Let_def st2_def)
    from declaredLoop_Inl [OF this] show ?thesis unfolding st2_def .
  next
    case (Inr res)
    obtain rd st3 where res: "res = (rd, st3)" by (cases res)
    note run1 = Inr [unfolded res]
    have sub: "fst ` set (declaredProperties st2) \<subseteq> fst ` set (declaredProperties st2)" by simp
    from declaredLoop_Inr [OF run1 sub] have b1: "built e st2 rd st3" by auto
    from run ne diff data run1
    have "includesOwnProperties st3
      \<and> ownLoop e ?r d (map fst (heap (world st3) d)) (rd, st3) = Inl (err, st')"
      by (auto simp: inspectObject_def Let_def st2_def split: if_splits sum.splits)
    then have "rowsOnly st3 st'" using ownLoop_Inl by blast
    with built_rowsOnly [OF b1] show ?thesis unfolding st2_def by (blast intro: rowsOnly_trans)
  qed
qed

lemma inspectObject_rebuilt:
  assumes ne: "resolveObject st object \<noteq> ONull"
    and diff: "inspectedObject st \<noteq> resolveObject st object"
    and data: "dataOf (world st) (resolveObject st object) = Some d"
    and run: "inspectObject e object st = Inr st''"
  shows "\<exists>rows st'. st'' = st'\<lparr>mainDiv := rows\<rparr>
     \<and> built e (st\<lparr>inspectedObject := resolveObject st object, mainDiv := [],
                   inspectedProperties := [], tabIndex := 0\<rparr>) rows st'
     \<and> set (map fst rows) =
         fst ` {p \<in> set (declaredProperties st).
                  visible (world st) (resolveObject st object) (fst p) (snd p)}
         \<union> (if includesOwnProperties st
            then {k \<in> fst ` set (heap (world st) d).
                    k \<noteq> ''__gohashid'' \<and> objectPrototype e k = None
                    \<and> \<not> hidden st (resolveObject st object) k}
            else {})
     \<and> (distinct (map fst (declaredProperties st)) \<longrightarrow> distinct (map fst rows))"
proof -
  let ?r = "resolveObject st object"
  define st2 where "st2 = st\<lparr>inspectedObject := ?r, mainDiv := [], inspectedProperties := [], tabIndex := 0\<rparr>"
  from run ne diff data obtain rd st3 where
    run1: "declaredLoop e ?r d (declaredProperties st2) ([], st2) = Inr (rd, st3)"
    by (cases "declaredLoop e ?r d (declaredProperties st2) ([], st2)")
       (auto simp: inspectObject_def Let_def st2_def)
  have sub: "fst ` set (declaredProperties st2) \<subseteq> fst ` set (declaredProperties st2)" by simp
  from declaredLoop_Inr [OF run1 sub]
  have b1: "built e st2 rd st3"
    and n1: "map fst rd = map fst (filter (\<lambda>p. visible (world st2) ?r (fst p) (snd p)) (declaredProperties st2))"
    by auto
  note f1 = built_frame [OF b1]
  have ip3: "inspectedProperties st3 = register [] rd"
    using built_registry(1) [OF b1] by (simp add: st2_def)
  have hd: "hidden st3 ?r = hidden st ?r"
    by (rule ext) (simp add: hidden_def f1 st2_def cong: option.case_cong)
  have nd: "fst ` set rd = fst ` {p \<in> set (declaredProperties st). visible (world st) ?r (fst p) (snd p)}"
  proof -
    have "fst ` set rd = set (map fst rd)" by simp
    also have "\<dots> = fst ` set (filter (\<lambda>p. visible (world st2) ?r (fst p) (snd p)) (declaredProperties st2))"
      unfolding n1 by simp
    finally show ?thesis by (simp add: st2_def)
  qed
  show ?thesis
  proof (cases "includesOwnProperties st")
    case False
    then have "st'' = st3\<lparr>mainDiv := rd\<rparr>"
      using ne diff data run run1 f1 unfolding inspectObject_def st2_def by (simp add: Let_def)
    moreover have "distinct (map fst (declaredProperties st)) \<longrightarrow> distinct (map fst rd)"
      unfolding n1 by (simp add: st2_def distinct_map_filter)
    moreover have "built e (st\<lparr>inspectedObject := ?r, mainDiv := [],
                   inspectedProperties := [], tabIndex := 0\<rparr>) rd st3"
      using b1 unfolding st2_def .
    moreover from nd False have "set (map fst rd) =
         fst ` {p \<in> set (declaredProperties st). visible (world st) ?r (fst p) (snd p)}
         \<union> (if includesOwnProperties st
            then {k \<in> fst ` set (heap (world st) d).
                    k \<noteq> ''__gohashid'' \<and> objectPrototype e k = None \<and> \<not> hidden st ?r k}
            else {})" by simp
    ultimately show ?thesis by blast
  next
    case True
    from run ne diff data run1 True f1 obtain tb st4 where
      run2: "ownLoop e ?r d (map fst (heap (world st3) d)) (rd, st3) = Inr (tb, st4)"
      and fin: "st'' = st4\<lparr>mainDiv := tb\<rparr>"
      by (cases "ownLoop e ?r d (map fst (heap (world st3) d)) (rd, st3)")
         (auto simp: inspectObject_def Let_def st2_def)
    from ownLoop_Inr [OF run2] obtain ro where
      tb: "tb = rd @ ro"
      and b2: "built e st3 ro st4"
      and n2: "set (map fst ro) = {k \<in> set (map fst (heap (world st3) d)). k \<noteq> ''__gohashid'' \<and>
                 \<not> inspectedPropertyTruthy e (inspectedProperties st3) k \<and> \<not> hidden st3 ?r k}"
      and dist2: "distinct (map fst ro)"
      by blast
    have truthy: "\<And>k. inspectedPropertyTruthy e (inspectedProperties st3) k \<longleftrightarrow>
        k \<in> fst ` set rd \<or> objectPrototype e k \<noteq> None"
      unfolding inspectedPropertyTruthy_def ip3
      using names_register [of "[]" rd] by (auto simp: map_of_eq_None_iff)
    have n2': "fst ` set ro = {k \<in> fst ` set (heap (world st) d). k \<noteq> ''__gohashid'' \<and>
                 k \<notin> fst ` set rd \<and> objectPrototype e k = None \<and> \<not> hidden st ?r k}"
      using n2 unfolding truthy hd f1 by (auto simp: st2_def)
    have names: "set (map fst (rd @ ro)) =
         fst ` {p \<in> set (declaredProperties st). visible (world st) ?r (fst p) (snd p)}
         \<union> {k \<in> fst ` set (heap (world st) d).
              k \<noteq> ''__gohashid'' \<and> objectPrototype e k = None \<and> \<not> hidden st ?r k}"
      (is "?L = ?A \<union> ?B")
    proof -
      have "?L = fst ` set rd \<union> fst ` set ro" by auto
      also have "\<dots> = ?A \<union> {k \<in> fst ` set (heap (world st) d). k \<noteq> ''__gohashid'' \<and>
                 k \<notin> ?A \<and> objectPrototype e k = None \<and> \<not> hidden st ?r k}"
        unfolding n2' nd ..
      also have "\<dots> = ?A \<union> ?B" by blast
      finally show ?thesis .
    qed
    have dist: "distinct (map fst (declaredProperties st)) \<longrightarrow> distinct (map fst (rd @ ro))"
    proof
      assume "distinct (map fst (declaredProperties st))"
      then have "distinct (map fst rd)" unfolding n1 by (simp add: st2_def distinct_map_filter)
      moreover have "fst ` set rd \<inter> fst ` set ro = {}" unfolding n2' by blast
      ultimately show "distinct (map fst (rd @ ro))" using dist2 by simp
    qed
    have bt: "built e (st\<lparr>inspectedObject := ?r, mainDiv := [],
                   inspectedProperties := [], tabIndex := 0\<rparr>) (rd @ ro) st4"
      using built_trans [OF b1 b2] unfolding st2_def .
    from names True have names': "set (map fst (rd @ ro)) =
         fst ` {p \<in> set (declaredProperties st). visible (world st) ?r (fst p) (snd p)}
         \<union> (if includesOwnProperties st
            then {k \<in> fst ` set (heap (world st) d).
                    k \<noteq> ''__gohashid'' \<and> objectPrototype e k = None \<and> \<not> hidden st ?r k}
            else {})" by simp
    from fin tb bt names' dist show ?thesis by blast
  qed
qed


subsection \<open>The commit\<close>

lemma partData_applyCall [simp]: "partData (applyCall ev w) = partData w"
  by (cases ev) simp_all

lemma partData_applyCalls [simp]: "partData (applyCalls evs w) = partData w"
  by (induction evs arbitrary: w) (simp_all add: applyCalls_Cons)

lemma dataOf_applyCalls [simp]: "dataOf (applyCalls evs w) object = dataOf w object"
  by (simp add: dataOf_def split: obj.splits)

lemma propertyCalls_cong:
  "declaredProperties s = declaredProperties t \<Longrightarrow> inspectedObject s = inspectedObject t \<Longrightarrow>
   propertyModified s = propertyModified t \<Longrightarrow>
   propertyCalls e s d w name str = propertyCalls e t d w name str"
  by (simp add: propertyCalls_def Let_def)

lemma applyCalls_propertyCalls:
  "applyCalls (propertyCalls e st d w name str) w =
     (if editableIn e w (inspectedObject st) (declaredProperties st) d name
      then w\<lparr>heap := (heap w)(d := AList.update name
              (valueOfText e (typeAtCommit (declaredProperties st) name (getProp e (heap w d) name)) str)
              (heap w d))\<rparr>
      else w)"
  by (simp add: propertyCalls_def applyCalls_def Let_def)

lemma commitRow_result:
  assumes "dataOf (world st) (inspectedObject st) = Some d"
  shows "\<exists>ins. commitRow e d (name, i) st =
           Inr (st\<lparr>inputs := ins,
                  world := applyCalls (propertyCalls e st d (world st) name (ivalue (inputs st i))) (world st),
                  calls := calls st @ propertyCalls e st d (world st) name (ivalue (inputs st i))\<rparr>)
        \<and> (\<forall>j. j \<noteq> i \<longrightarrow> ins j = inputs st j)"
proof -
  let ?ed = "editableIn e (world st) (inspectedObject st) (declaredProperties st) d name"
  note c = canEditProperty_editableIn [OF assms, of e name "declaredProperties st"]
  show ?thesis
  proof (cases ?ed)
    case False
    have "st = st\<lparr>inputs := inputs st, world := world st, calls := calls st @ []\<rparr>" by simp
    with False c show ?thesis
      by (intro exI [of _ "inputs st"]) (simp add: commitRow_def propertyCalls_def Let_def)
  next
    case True
    let ?v = "valueOfText e (typeAtCommit (declaredProperties st) name (getProp e (heap (world st) d) name))
                (ivalue (inputs st i))"
    from True c show ?thesis
      by (intro exI [of _ "(inputs st)(i := assignValue e ?v (inputs st i))"])
         (simp add: commitRow_def propertyCalls_def applyCalls_def Let_def setInputValue_def
           setDataProperty_def resolveType_typeAtCommit convertValue_valueOfText)
  qed
qed

lemma commitRows_result:
  assumes "dataOf (world st) (inspectedObject st) = Some d"
    and "''hasOwnProperty'' \<notin> fst ` set (inspectedProperties st)"
    and "fst ` set rows \<subseteq> fst ` set (inspectedProperties st)"
  shows "\<exists>ins chunks strs.
       commitRows e d rows st =
         Inr (st\<lparr>inputs := ins, world := applyCalls (concat chunks) (world st),
                calls := calls st @ concat chunks\<rparr>)
     \<and> length chunks = length rows \<and> length strs = length rows
     \<and> (\<forall>i < length rows.
          chunks ! i = propertyCalls e st d (applyCalls (concat (take i chunks)) (world st))
                         (fst (rows ! i)) (strs ! i))
     \<and> (\<forall>j. j \<notin> snd ` set rows \<longrightarrow> ins j = inputs st j)
     \<and> (distinct (map snd rows) \<longrightarrow>
          (\<forall>i < length rows. strs ! i = ivalue (inputs st (snd (rows ! i)))))"
  using assms
proof (induction rows arbitrary: st)
  case Nil
  have "st = st\<lparr>inputs := inputs st, world := applyCalls (concat []) (world st),
                calls := calls st @ concat []\<rparr>" by simp
  then show ?case
    by (intro exI [of _ "inputs st"] exI [of _ "[]"]) simp
next
  case (Cons r rows)
  obtain name i where r: "r = (name, i)" by (cases r)
  let ?c = "propertyCalls e st d (world st) name (ivalue (inputs st i))"
  from Cons.prems(3) have kin: "name \<in> set (map fst (inspectedProperties st))"
    and sub: "fst ` set rows \<subseteq> fst ` set (inspectedProperties st)"
    by (auto simp: r)
  from hasOwnPropertyCall_cases [of "map fst (inspectedProperties st)" name] Cons.prems(2) kin
  have own: "hasOwnPropertyCall (map fst (inspectedProperties st)) name = Inr True" by auto
  from commitRow_result [OF Cons.prems(1), of e name i] obtain ins1 where
    r1: "commitRow e d (name, i) st =
           Inr (st\<lparr>inputs := ins1, world := applyCalls ?c (world st), calls := calls st @ ?c\<rparr>)"
    and o1: "\<forall>j. j \<noteq> i \<longrightarrow> ins1 j = inputs st j"
    by blast
  define st1 where "st1 = st\<lparr>inputs := ins1, world := applyCalls ?c (world st), calls := calls st @ ?c\<rparr>"
  have d1: "dataOf (world st1) (inspectedObject st1) = Some d"
    using Cons.prems(1) by (simp add: st1_def)
  have h1: "''hasOwnProperty'' \<notin> fst ` set (inspectedProperties st1)"
    using Cons.prems(2) by (simp add: st1_def)
  have s1: "fst ` set rows \<subseteq> fst ` set (inspectedProperties st1)"
    using sub by (simp add: st1_def)
  from Cons.IH [OF d1 h1 s1] obtain ins chunks strs where
    run: "commitRows e d rows st1 =
           Inr (st1\<lparr>inputs := ins, world := applyCalls (concat chunks) (world st1),
                  calls := calls st1 @ concat chunks\<rparr>)"
    and len: "length chunks = length rows" and lens: "length strs = length rows"
    and each: "\<forall>i < length rows.
          chunks ! i = propertyCalls e st1 d (applyCalls (concat (take i chunks)) (world st1))
                         (fst (rows ! i)) (strs ! i)"
    and out: "\<forall>j. j \<notin> snd ` set rows \<longrightarrow> ins j = inputs st1 j"
    and vals: "distinct (map snd rows) \<longrightarrow>
          (\<forall>i < length rows. strs ! i = ivalue (inputs st1 (snd (rows ! i))))"
    by blast
  let ?chunks = "?c # chunks"
  let ?strs = "ivalue (inputs st i) # strs"
  have pc: "\<And>w n s. propertyCalls e st1 d w n s = propertyCalls e st d w n s"
    by (rule propertyCalls_cong) (simp_all add: st1_def)
  have run': "commitRows e d (r # rows) st =
         Inr (st\<lparr>inputs := ins, world := applyCalls (concat ?chunks) (world st),
                calls := calls st @ concat ?chunks\<rparr>)"
    using own r1 run unfolding r st1_def by (simp add: applyCalls_append)
  have len': "length ?chunks = length (r # rows)" "length ?strs = length (r # rows)"
    using len lens by simp_all
  have each': "\<forall>j < length (r # rows).
          ?chunks ! j = propertyCalls e st d (applyCalls (concat (take j ?chunks)) (world st))
                         (fst ((r # rows) ! j)) (?strs ! j)"
  proof (intro allI impI)
    fix j assume j: "j < length (r # rows)"
    show "?chunks ! j = propertyCalls e st d (applyCalls (concat (take j ?chunks)) (world st))
                         (fst ((r # rows) ! j)) (?strs ! j)"
    proof (cases j)
      case 0
      then show ?thesis by (simp add: r)
    next
      case (Suc m)
      with j have m: "m < length rows" by simp
      from each m have "chunks ! m = propertyCalls e st1 d (applyCalls (concat (take m chunks)) (world st1))
                         (fst (rows ! m)) (strs ! m)" by blast
      then show ?thesis unfolding Suc pc by (simp add: st1_def applyCalls_append)
    qed
  qed
  have out': "\<forall>j. j \<notin> snd ` set (r # rows) \<longrightarrow> ins j = inputs st j"
    using out o1 unfolding r st1_def by simp
  have vals': "distinct (map snd (r # rows)) \<longrightarrow>
          (\<forall>j < length (r # rows). ?strs ! j = ivalue (inputs st (snd ((r # rows) ! j))))"
  proof (intro allI impI)
    fix j assume dist: "distinct (map snd (r # rows))" and j: "j < length (r # rows)"
    from dist have ni: "i \<notin> snd ` set rows" and d': "distinct (map snd rows)" unfolding r by auto
    show "?strs ! j = ivalue (inputs st (snd ((r # rows) ! j)))"
    proof (cases j)
      case 0
      then show ?thesis by (simp add: r)
    next
      case (Suc m)
      with j have m: "m < length rows" by simp
      then have "snd (rows ! m) \<in> snd ` set rows" by simp
      with ni have ne: "snd (rows ! m) \<noteq> i" by auto
      from vals d' m have "strs ! m = ivalue (inputs st1 (snd (rows ! m)))" by blast
      with o1 ne show ?thesis unfolding Suc by (simp add: st1_def)
    qed
  qed
  from run' len' each' out' vals' show ?case by blast
qed

lemma updateAllProperties_result:
  assumes "dataOf (world st) (inspectedObject st) = Some d"
    and "''hasOwnProperty'' \<notin> fst ` set (inspectedProperties st)"
  shows "\<exists>ins chunks strs.
       updateAllProperties e st =
         Inr (st\<lparr>inputs := ins, world := applyCalls (concat chunks) (world st),
                calls := calls st @ [StartTransaction ''set all properties''] @ concat chunks
                  @ [CommitTransaction ''set all properties'']\<rparr>)
     \<and> length chunks = length (inspectedProperties st)
     \<and> length strs = length (inspectedProperties st)
     \<and> (\<forall>i < length (inspectedProperties st).
          chunks ! i = propertyCalls e st d (applyCalls (concat (take i chunks)) (world st))
                         (fst (inspectedProperties st ! i)) (strs ! i))
     \<and> (\<forall>j. j \<notin> snd ` set (inspectedProperties st) \<longrightarrow> ins j = inputs st j)
     \<and> (distinct (map snd (inspectedProperties st)) \<longrightarrow>
          (\<forall>i < length (inspectedProperties st).
             strs ! i = ivalue (inputs st (snd (inspectedProperties st ! i)))))"
proof -
  let ?s = "st\<lparr>calls := calls st @ [StartTransaction ''set all properties'']\<rparr>"
  let ?rows = "inspectedProperties st"
  have ds: "dataOf (world ?s) (inspectedObject ?s) = Some d" using assms(1) by simp
  have hs: "''hasOwnProperty'' \<notin> fst ` set (inspectedProperties ?s)" using assms(2) by simp
  have ss: "fst ` set ?rows \<subseteq> fst ` set (inspectedProperties ?s)" by simp
  have pc: "\<And>w n s. propertyCalls e ?s d w n s = propertyCalls e st d w n s"
    by (rule propertyCalls_cong) simp_all
  from commitRows_result [OF ds hs ss, of e] obtain ins chunks strs where
    run: "commitRows e d ?rows ?s =
         Inr (?s\<lparr>inputs := ins, world := applyCalls (concat chunks) (world ?s),
                calls := calls ?s @ concat chunks\<rparr>)"
    and len: "length chunks = length ?rows" "length strs = length ?rows"
    and each: "\<forall>i < length ?rows.
          chunks ! i = propertyCalls e ?s d (applyCalls (concat (take i chunks)) (world ?s))
                         (fst (?rows ! i)) (strs ! i)"
    and out: "\<forall>j. j \<notin> snd ` set ?rows \<longrightarrow> ins j = inputs ?s j"
    and vals: "distinct (map snd ?rows) \<longrightarrow>
          (\<forall>i < length ?rows. strs ! i = ivalue (inputs ?s (snd (?rows ! i))))"
    by blast
  have "updateAllProperties e st =
         Inr (st\<lparr>inputs := ins, world := applyCalls (concat chunks) (world st),
                calls := calls st @ [StartTransaction ''set all properties''] @ concat chunks
                  @ [CommitTransaction ''set all properties'']\<rparr>)"
    using assms(1) run by (simp add: updateAllProperties_def)
  moreover from each have "\<forall>i < length ?rows.
          chunks ! i = propertyCalls e st d (applyCalls (concat (take i chunks)) (world st))
                         (fst (?rows ! i)) (strs ! i)"
    unfolding pc by simp
  moreover from out have "\<forall>j. j \<notin> snd ` set ?rows \<longrightarrow> ins j = inputs st j" by simp
  moreover from vals have "distinct (map snd ?rows) \<longrightarrow>
          (\<forall>i < length ?rows. strs ! i = ivalue (inputs st (snd (?rows ! i))))" by simp
  ultimately show ?thesis using len by blast
qed

lemma dispatchEvent_registered:
  "ev \<in> set (listeners (inputs st i)) \<Longrightarrow> dispatchEvent e i ev st = updateAllProperties e st"
  by (simp add: dispatchEvent_def)

lemma typeAtCommit_boolean:
  assumes "(\<exists>desc. map_of decl name = Some desc \<and> ptype desc = Some ''boolean'')
     \<or> ((\<forall>desc. map_of decl name = Some desc \<longrightarrow> ptype desc = None \<or> ptype desc = Some [])
         \<and> typeof oldval = ''boolean'')"
  shows "typeAtCommit decl name oldval = ''boolean''"
proof -
  have "typeof oldval = ''boolean'' \<Longrightarrow> inferredType oldval = ''boolean''"
    by (cases oldval) simp_all
  with assms show ?thesis by (auto simp: typeAtCommit_def split: option.splits)
qed

subsection \<open>The round trip of an array of numbers\<close>









subsection \<open>The example\<close>





lemma exampleInitial_facts:
  "declaredProperties exampleInitial = exampleProperties"
  "world exampleInitial = exampleWorld"
  "inspectedObject exampleInitial = ONull"
  "inspectsSelection exampleInitial"
  "selection exampleInitial = [1]"
  "includesOwnProperties exampleInitial"
  by (simp_all add: exampleInitial_def Inspector_def exampleOptions_def)

lemma exampleBuilt_outcome:
  "inspectObject exampleExt OUndefined exampleInitial = Inr exampleBuilt"
proof -
  have "\<not> isl (inspectObject exampleExt OUndefined exampleInitial)" by code_simp
  then show ?thesis unfolding exampleBuilt_def by (cases "inspectObject exampleExt OUndefined exampleInitial") auto
qed

lemma exampleBuilt_facts:
  "declaredProperties exampleBuilt = exampleProperties"
  "world exampleBuilt = exampleWorld"
  "inspectedObject exampleBuilt = OPart 1"
  "inspectsSelection exampleBuilt"
  "selection exampleBuilt = [1]"
  "includesOwnProperties exampleBuilt"
  "mainDiv exampleBuilt = [(''key'', 0), (''done'', 1), (''owner'', 2), (''fill'', 3), (''text'', 4)]"
  "inspectedProperties exampleBuilt = [(''key'', 0), (''done'', 1), (''owner'', 2), (''fill'', 3), (''text'', 4)]"
  "nextInput exampleBuilt = 5"
proof -
  have ne: "resolveObject exampleInitial OUndefined \<noteq> ONull"
    and diff: "inspectedObject exampleInitial \<noteq> resolveObject exampleInitial OUndefined"
    by (simp_all add: resolveObject_objectOfCall exampleInitial_facts)
  have data: "dataOf (world exampleInitial) (resolveObject exampleInitial OUndefined) = Some 10"
    by (simp add: resolveObject_objectOfCall exampleInitial_facts dataOf_def exampleWorld_def)
  from inspectObject_rebuilt [OF ne diff data exampleBuilt_outcome] obtain rows st' where
    eq: "exampleBuilt = st'\<lparr>mainDiv := rows\<rparr>"
    and b: "built exampleExt (exampleInitial\<lparr>inspectedObject := resolveObject exampleInitial OUndefined,
          mainDiv := [], inspectedProperties := [], tabIndex := 0\<rparr>) rows st'"
    by blast
  note f = built_frame [OF b]
  show "declaredProperties exampleBuilt = exampleProperties"
    "world exampleBuilt = exampleWorld"
    "inspectedObject exampleBuilt = OPart 1"
    "inspectsSelection exampleBuilt"
    "selection exampleBuilt = [1]"
    "includesOwnProperties exampleBuilt"
    unfolding eq using f by (simp_all add: resolveObject_objectOfCall exampleInitial_facts)
  show "mainDiv exampleBuilt = [(''key'', 0), (''done'', 1), (''owner'', 2), (''fill'', 3), (''text'', 4)]"
    by code_simp
  show "inspectedProperties exampleBuilt = [(''key'', 0), (''done'', 1), (''owner'', 2), (''fill'', 3), (''text'', 4)]"
    by code_simp
  show "nextInput exampleBuilt = 5" by code_simp
qed

lemma exampleEdited_facts:
  "declaredProperties exampleEdited = exampleProperties"
  "world exampleEdited = exampleWorld"
  "inspectedObject exampleEdited = OPart 1"
  "inspectedProperties exampleEdited = [(''key'', 0), (''done'', 1), (''owner'', 2), (''fill'', 3), (''text'', 4)]"
  by (simp_all add: exampleEdited_def userTypes_def exampleBuilt_facts)

subsection \<open>Cases the properties below leave aside\<close>

text \<open>
  An input that reports the type \<^verbatim>\<open>color\<close> for a declared type other than \<^verbatim>\<open>color\<close> (the
  browser reports \<^verbatim>\<open>color\<close> for the attribute value \<^verbatim>\<open>Color\<close>) gets neither the \<^verbatim>\<open>blur\<close>
  listener nor the two of a colour picker: no event on it runs the commit.
\<close>

lemma buildPropertyRow_without_listener:
  assumes "buildPropertyRow e k v st0 = Inr (row, st1)"
    and "itype (inputs st1 (snd row)) = ''color''"
    and "\<not> (\<exists>desc. map_of (declaredProperties st0) k = Some desc \<and> ptype desc = Some ''color'')"
  shows "listeners (inputs st1 (snd row)) = []"
proof -
  from buildPropertyRow_Inr [OF assms(1)] obtain bb str inp where
    ri: "rowInput e st0 k v str bb = Inr inp"
    and row: "row = (k, nextInput st0)"
    and i: "inputs st1 (nextInput st0) = inp"
    by auto
  from assms(2) have "itype inp = ''color''" unfolding row using i by simp
  from rowInput_Inr(4) [OF ri this assms(3)] show ?thesis unfolding row using i by simp
qed

lemma color_input_of_other_declared_type:
  "itype (inputs (snd (projr (buildPropertyRow exampleExt ''shade'' (JStr ''#00ff00'')
      (exampleBuilt\<lparr>declaredProperties :=
         [(''shade'', \<lparr>pshow = Unset, preadOnly = Unset, ptype = Some ''Color'',
                       pdefaultValue = JUndefined\<rparr>)]\<rparr>)))) 5) = ''color''
   \<and> listeners (inputs (snd (projr (buildPropertyRow exampleExt ''shade'' (JStr ''#00ff00'')
      (exampleBuilt\<lparr>declaredProperties :=
         [(''shade'', \<lparr>pshow = Unset, preadOnly = Unset, ptype = Some ''Color'',
                       pdefaultValue = JUndefined\<rparr>)]\<rparr>)))) 5) = []"
  by code_simp

text \<open>
  A key of the data that is the name of a member of \<^verbatim>\<open>Object.prototype\<close> gets no row unless
  it is declared: \<^verbatim>\<open>this._inspectedProperties[k]\<close> finds the inherited member. Object 30 has
  the keys \<^verbatim>\<open>key\<close> and \<^verbatim>\<open>constructor\<close>.
\<close>

lemma ownLoop_skips_inherited_name:
  "objectPrototype e k \<noteq> None \<Longrightarrow>
   ownLoop e object d (k # rest) (tbody, st) = ownLoop e object d rest (tbody, st)"
  by (simp add: inspectedPropertyTruthy_def)

lemma key_named_constructor_has_no_row:
  "map fst (heap (world otherBuilt) 30) = [''key'', ''constructor'']
   \<and> \<not> isl (inspectObject exampleExt (OData 30) otherBuilt)
   \<and> map fst (mainDiv (projr (inspectObject exampleExt (OData 30) otherBuilt)))
       = [''key'', ''done'', ''owner'', ''fill'']"
  by code_simp

text \<open>
  A declared property named \<^verbatim>\<open>hasOwnProperty\<close> makes the first test of the loop over the
  declared properties a call of a descriptor: the rebuild throws at once.
\<close>

lemma declaredLoop_hasOwnProperty:
  "''hasOwnProperty'' \<in> fst ` set (declaredProperties st) \<Longrightarrow>
   declaredLoop e object d (p # rest) (tbody, st) = Inl (TypeError, st)"
  by (cases p) (simp add: hasOwnPropertyCall_def)

section \<open>Properties of the property inspector\<close>

text \<open>
  C1, as amended. \<^verbatim>\<open>buildPropertyRow\<close> registers the commit on \<^verbatim>\<open>blur\<close> for every input that
  does not report the type \<^verbatim>\<open>color\<close>, and on \<^verbatim>\<open>input\<close> and \<^verbatim>\<open>change\<close> for a property declared
  with the type \<^verbatim>\<open>color\<close> whose input reports that type; an event with a registered listener
  runs \<^verbatim>\<open>updateAllProperties\<close>. When the inspected object has data (the model not being
  read-only, no row being named \<^verbatim>\<open>hasOwnProperty\<close>, every row having an input of its own),
  \<^verbatim>\<open>updateAllProperties\<close> returns and adds to the calls exactly one \<^verbatim>\<open>startTransaction\<close>, then
  one group of calls per row, in the order of the rows, then one \<^verbatim>\<open>commitTransaction\<close>. The
  group of a row is what \<open>propertyCalls\<close> says for the data as the groups before it have left
  them: if the stored value is a function, or the property is declared read-only by flag
  or by a predicate that returns true, nothing; otherwise one \<^verbatim>\<open>setDataProperty\<close> on the
  inspected data, followed by one call of the callback if there is one, both with the value
  that the text of the row's input stands for under the property's type. The type is the
  declared one, or without one the type inferred from the stored value (\<open>typeAtCommit\<close>);
  the value is a boolean, a number, \<^verbatim>\<open>null\<close> or an array of numbers, a geometry object, or
  the text itself (\<open>valueOfText\<close>). The data afterwards are those the calls describe. The
  callback is called for every property written, whether or not the value differs from the
  stored one.
\<close>

theorem commit_rule:
  "(buildPropertyRow e k v st0 = Inr (row, st1) \<longrightarrow>
      (itype (inputs st1 (snd row)) \<noteq> ''color'' \<longrightarrow> listeners (inputs st1 (snd row)) = [''blur''])
      \<and> (itype (inputs st1 (snd row)) = ''color''
           \<and> (\<exists>desc. map_of (declaredProperties st0) k = Some desc \<and> ptype desc = Some ''color'')
         \<longrightarrow> listeners (inputs st1 (snd row)) = [''input'', ''change'']))
   \<and> (ev \<in> set (listeners (inputs st i)) \<longrightarrow> dispatchEvent e i ev st = updateAllProperties e st)
   \<and> (dataOf (world st) (inspectedObject st) = Some d
        \<and> \<not> isReadOnly st
        \<and> ''hasOwnProperty'' \<notin> fst ` set (inspectedProperties st)
        \<and> distinct (map snd (inspectedProperties st)) \<longrightarrow>
        (\<exists>st' groups. updateAllProperties e st = Inr st'
           \<and> calls st' = calls st @ [StartTransaction ''set all properties''] @ concat groups
               @ [CommitTransaction ''set all properties'']
           \<and> length groups = length (inspectedProperties st)
           \<and> (\<forall>n < length (inspectedProperties st).
                groups ! n =
                  propertyCalls e st d (applyCalls (concat (take n groups)) (world st))
                    (fst (inspectedProperties st ! n))
                    (ivalue (inputs st (snd (inspectedProperties st ! n)))))
           \<and> world st' = applyCalls (concat groups) (world st)))"
proof (intro conjI impI)
  assume b: "buildPropertyRow e k v st0 = Inr (row, st1)"
  from buildPropertyRow_Inr [OF b] obtain bb str inp where
    ri: "rowInput e st0 k v str bb = Inr inp"
    and row: "row = (k, nextInput st0)"
    and i: "inputs st1 (nextInput st0) = inp"
    by auto
  show "itype (inputs st1 (snd row)) \<noteq> ''color'' \<Longrightarrow> listeners (inputs st1 (snd row)) = [''blur'']"
    unfolding row using i rowInput_Inr(2) [OF ri] by simp
  show "itype (inputs st1 (snd row)) = ''color''
           \<and> (\<exists>desc. map_of (declaredProperties st0) k = Some desc \<and> ptype desc = Some ''color'')
         \<Longrightarrow> listeners (inputs st1 (snd row)) = [''input'', ''change'']"
    unfolding row using i rowInput_Inr(3) [OF ri] by auto
next
  assume "ev \<in> set (listeners (inputs st i))"
  then show "dispatchEvent e i ev st = updateAllProperties e st" by (rule dispatchEvent_registered)
next
  assume a: "dataOf (world st) (inspectedObject st) = Some d
        \<and> \<not> isReadOnly st
        \<and> ''hasOwnProperty'' \<notin> fst ` set (inspectedProperties st)
        \<and> distinct (map snd (inspectedProperties st))"
  from updateAllProperties_result [of st d e] a obtain ins groups strs where
    run: "updateAllProperties e st =
         Inr (st\<lparr>inputs := ins, world := applyCalls (concat groups) (world st),
                calls := calls st @ [StartTransaction ''set all properties''] @ concat groups
                  @ [CommitTransaction ''set all properties'']\<rparr>)"
    and len: "length groups = length (inspectedProperties st)"
    and each: "\<forall>n < length (inspectedProperties st).
          groups ! n = propertyCalls e st d (applyCalls (concat (take n groups)) (world st))
                         (fst (inspectedProperties st ! n)) (strs ! n)"
    and vals: "\<forall>n < length (inspectedProperties st).
             strs ! n = ivalue (inputs st (snd (inspectedProperties st ! n)))"
    by blast
  define st' where "st' = st\<lparr>inputs := ins, world := applyCalls (concat groups) (world st),
                calls := calls st @ [StartTransaction ''set all properties''] @ concat groups
                  @ [CommitTransaction ''set all properties'']\<rparr>"
  have 1: "updateAllProperties e st = Inr st'" using run by (simp add: st'_def)
  have 2: "calls st' = calls st @ [StartTransaction ''set all properties''] @ concat groups
               @ [CommitTransaction ''set all properties'']" by (simp add: st'_def)
  have 3: "\<forall>n < length (inspectedProperties st).
                groups ! n =
                  propertyCalls e st d (applyCalls (concat (take n groups)) (world st))
                    (fst (inspectedProperties st ! n))
                    (ivalue (inputs st (snd (inspectedProperties st ! n))))"
    using each vals by simp
  have 4: "world st' = applyCalls (concat groups) (world st)" by (simp add: st'_def)
  from 1 2 len 3 4
  show "\<exists>st' groups. updateAllProperties e st = Inr st'
           \<and> calls st' = calls st @ [StartTransaction ''set all properties''] @ concat groups
               @ [CommitTransaction ''set all properties'']
           \<and> length groups = length (inspectedProperties st)
           \<and> (\<forall>n < length (inspectedProperties st).
                groups ! n =
                  propertyCalls e st d (applyCalls (concat (take n groups)) (world st))
                    (fst (inspectedProperties st ! n))
                    (ivalue (inputs st (snd (inspectedProperties st ! n)))))
           \<and> world st' = applyCalls (concat groups) (world st)"
    by blast
qed

theorem commit_rule_witness:
  "\<not> isl (buildPropertyRow exampleExt ''text'' (JStr ''hello'') exampleBuilt)
   \<and> itype (inputs (snd (projr (buildPropertyRow exampleExt ''text'' (JStr ''hello'') exampleBuilt))) 5) = ''text''
   \<and> listeners (inputs (snd (projr (buildPropertyRow exampleExt ''text'' (JStr ''hello'') exampleBuilt))) 5) = [''blur'']
   \<and> \<not> isl (buildPropertyRow exampleExt ''fill'' (JStr ''#ff0000'') exampleBuilt)
   \<and> itype (inputs (snd (projr (buildPropertyRow exampleExt ''fill'' (JStr ''#ff0000'') exampleBuilt))) 5) = ''color''
   \<and> listeners (inputs (snd (projr (buildPropertyRow exampleExt ''fill'' (JStr ''#ff0000'') exampleBuilt))) 5)
       = [''input'', ''change'']
   \<and> ''blur'' \<in> set (listeners (inputs exampleEdited 4))
   \<and> dispatchEvent exampleExt 4 ''blur'' exampleEdited = updateAllProperties exampleExt exampleEdited
   \<and> dataOf (world exampleEdited) (inspectedObject exampleEdited) = Some 10
   \<and> \<not> isReadOnly exampleEdited
   \<and> ''hasOwnProperty'' \<notin> fst ` set (inspectedProperties exampleEdited)
   \<and> distinct (map snd (inspectedProperties exampleEdited))
   \<and> (\<exists>st' groups. updateAllProperties exampleExt exampleEdited = Inr st'
        \<and> calls st' = calls exampleEdited @ [StartTransaction ''set all properties''] @ concat groups
               @ [CommitTransaction ''set all properties'']
        \<and> length groups = length (inspectedProperties exampleEdited)
        \<and> groups ! 1 = propertyCalls exampleExt exampleEdited 10
              (applyCalls (concat (take 1 groups)) (world exampleEdited)) ''done'' ''0''
        \<and> world st' = applyCalls (concat groups) (world exampleEdited))
   \<and> propertyCalls exampleExt exampleEdited 10 (world exampleEdited) ''key'' ''n1'' = []
   \<and> propertyCalls exampleExt exampleEdited 10 (world exampleEdited) ''done'' ''0''
       = [SetDataProperty 10 ''done'' (JBool False), PropertyModified ''done'' (JBool False)]
   \<and> calls (projr (updateAllProperties exampleExt exampleEdited)) =
       [StartTransaction ''set all properties'',
        SetDataProperty 10 ''done'' (JBool False), PropertyModified ''done'' (JBool False),
        SetDataProperty 10 ''fill'' (JStr ''#ff0000''), PropertyModified ''fill'' (JStr ''#ff0000''),
        SetDataProperty 10 ''text'' (JStr ''changed''), PropertyModified ''text'' (JStr ''changed''),
        CommitTransaction ''set all properties'']"
proof -
  let ?t = "buildPropertyRow exampleExt ''text'' (JStr ''hello'') exampleBuilt"
  let ?f = "buildPropertyRow exampleExt ''fill'' (JStr ''#ff0000'') exampleBuilt"
  have t0: "\<not> isl ?t" by code_simp
  have t1: "fst (projr ?t) = (''text'', 5)" by code_simp
  have t2: "itype (inputs (snd (projr ?t)) 5) = ''text''" by code_simp
  from t0 have t3: "?t = Inr (fst (projr ?t), snd (projr ?t))" by (cases ?t) auto
  have f0: "\<not> isl ?f" by code_simp
  have f1: "fst (projr ?f) = (''fill'', 5)" by code_simp
  have f2: "itype (inputs (snd (projr ?f)) 5) = ''color''" by code_simp
  have "map_option ptype (map_of (declaredProperties exampleBuilt) ''fill'') = Some (Some ''color'')"
    by (simp add: exampleBuilt_facts exampleProperties_def)
  then have f3: "\<exists>desc. map_of (declaredProperties exampleBuilt) ''fill'' = Some desc \<and> ptype desc = Some ''color''"
    by auto
  from f0 have f4: "?f = Inr (fst (projr ?f), snd (projr ?f))" by (cases ?f) auto
  have b: "''blur'' \<in> set (listeners (inputs exampleEdited 4))" by code_simp
  have d: "dataOf (world exampleEdited) (inspectedObject exampleEdited) = Some 10" by code_simp
  have ro: "\<not> isReadOnly exampleEdited" by code_simp
  have hop: "''hasOwnProperty'' \<notin> fst ` set (inspectedProperties exampleEdited)"
    by (simp add: exampleEdited_facts)
  have dist: "distinct (map snd (inspectedProperties exampleEdited))"
    by (simp add: exampleEdited_facts)
  have v1: "ivalue (inputs exampleEdited 1) = ''0''" by code_simp
  note A = commit_rule [of exampleExt "''text''" "JStr ''hello''" exampleBuilt "fst (projr ?t)" "snd (projr ?t)"
      "''blur''" exampleEdited 4 10]
  note B = commit_rule [of exampleExt "''fill''" "JStr ''#ff0000''" exampleBuilt "fst (projr ?f)" "snd (projr ?f)"
      "''blur''" exampleEdited 4 10]
  from A t3 t1 t2 have tl: "listeners (inputs (snd (projr ?t)) 5) = [''blur'']" by auto
  from B f4 f1 f2 f3 have fl: "listeners (inputs (snd (projr ?f)) 5) = [''input'', ''change'']" by auto
  from A b have dis: "dispatchEvent exampleExt 4 ''blur'' exampleEdited = updateAllProperties exampleExt exampleEdited"
    by blast
  from A d ro hop dist obtain st' groups where
    run: "updateAllProperties exampleExt exampleEdited = Inr st'"
    and cs: "calls st' = calls exampleEdited @ [StartTransaction ''set all properties''] @ concat groups
               @ [CommitTransaction ''set all properties'']"
    and len: "length groups = length (inspectedProperties exampleEdited)"
    and each: "\<forall>n < length (inspectedProperties exampleEdited).
                groups ! n =
                  propertyCalls exampleExt exampleEdited 10 (applyCalls (concat (take n groups)) (world exampleEdited))
                    (fst (inspectedProperties exampleEdited ! n))
                    (ivalue (inputs exampleEdited (snd (inspectedProperties exampleEdited ! n))))"
    and w: "world st' = applyCalls (concat groups) (world exampleEdited)"
    by blast
  have "(1::nat) < length (inspectedProperties exampleEdited)" by (simp add: exampleEdited_facts)
  with each have "groups ! 1 =
                  propertyCalls exampleExt exampleEdited 10 (applyCalls (concat (take 1 groups)) (world exampleEdited))
                    (fst (inspectedProperties exampleEdited ! 1))
                    (ivalue (inputs exampleEdited (snd (inspectedProperties exampleEdited ! 1))))"
    by blast
  then have g1: "groups ! 1 = propertyCalls exampleExt exampleEdited 10
              (applyCalls (concat (take 1 groups)) (world exampleEdited)) ''done'' ''0''"
    using v1 by (simp add: exampleEdited_facts)
  from run cs len g1 w
  have C: "\<exists>st' groups. updateAllProperties exampleExt exampleEdited = Inr st'
        \<and> calls st' = calls exampleEdited @ [StartTransaction ''set all properties''] @ concat groups
               @ [CommitTransaction ''set all properties'']
        \<and> length groups = length (inspectedProperties exampleEdited)
        \<and> groups ! 1 = propertyCalls exampleExt exampleEdited 10
              (applyCalls (concat (take 1 groups)) (world exampleEdited)) ''done'' ''0''
        \<and> world st' = applyCalls (concat groups) (world exampleEdited)"
    by blast
  have p1: "propertyCalls exampleExt exampleEdited 10 (world exampleEdited) ''key'' ''n1'' = []"
    by code_simp
  have p2: "propertyCalls exampleExt exampleEdited 10 (world exampleEdited) ''done'' ''0''
       = [SetDataProperty 10 ''done'' (JBool False), PropertyModified ''done'' (JBool False)]"
    by code_simp
  have E: "calls (projr (updateAllProperties exampleExt exampleEdited)) =
       [StartTransaction ''set all properties'',
        SetDataProperty 10 ''done'' (JBool False), PropertyModified ''done'' (JBool False),
        SetDataProperty 10 ''fill'' (JStr ''#ff0000''), PropertyModified ''fill'' (JStr ''#ff0000''),
        SetDataProperty 10 ''text'' (JStr ''changed''), PropertyModified ''text'' (JStr ''changed''),
        CommitTransaction ''set all properties'']"
    by code_simp
  from t0 t2 tl f0 f2 fl b dis d ro hop dist C p1 p2 E show ?thesis by blast
qed

text \<open>
  C1 as stated fails where it has the callback invoked once per changed property: the
  input of \<^verbatim>\<open>fill\<close> holds the stored value, nothing changes, and the commit still writes the
  property and calls the callback for it.
\<close>

theorem unchanged_property_is_reported:
  "getProp exampleExt (heap (world exampleEdited) 10) ''fill'' = JStr ''#ff0000''
   \<and> ivalue (inputs exampleEdited 3) = ''#ff0000''
   \<and> \<not> isl (updateAllProperties exampleExt exampleEdited)
   \<and> SetDataProperty 10 ''fill'' (JStr ''#ff0000'')
       \<in> set (calls (projr (updateAllProperties exampleExt exampleEdited)))
   \<and> PropertyModified ''fill'' (JStr ''#ff0000'')
       \<in> set (calls (projr (updateAllProperties exampleExt exampleEdited)))
   \<and> getProp exampleExt (heap (world (projr (updateAllProperties exampleExt exampleEdited))) 10) ''fill''
       = JStr ''#ff0000''"
  by code_simp







text \<open>
  C4. The boolean parse yields \<^verbatim>\<open>false\<close> exactly for the boolean \<^verbatim>\<open>false\<close>, the string
  \<^verbatim>\<open>false\<close> and the string \<^verbatim>\<open>0\<close>, and \<^verbatim>\<open>true\<close> for every other value. For an editable property
  whose declared type is \<^verbatim>\<open>boolean\<close>, or which declares no type (or the empty one) and holds
  a boolean, the commit of its row writes and reports the boolean so parsed from the input's
  string, and the data holds it afterwards.
\<close>

theorem boolean_parsing:
  assumes typed: "(\<exists>desc. map_of (declaredProperties st) name = Some desc \<and> ptype desc = Some ''boolean'')
     \<or> ((\<forall>desc. map_of (declaredProperties st) name = Some desc \<longrightarrow>
             ptype desc = None \<or> ptype desc = Some [])
         \<and> typeof (getProp e (heap (world st) d) name) = ''boolean'')"
    and ed: "editable e st name"
  shows "(parseBoolean v \<longleftrightarrow> v \<noteq> JBool False \<and> v \<noteq> JStr ''false'' \<and> v \<noteq> JStr ''0'')
    \<and> (\<exists>st'. commitRow e d (name, i) st = Inr st'
          \<and> calls st' = calls st
               @ SetDataProperty d name
                   (JBool (ivalue (inputs st i) \<noteq> ''false'' \<and> ivalue (inputs st i) \<noteq> ''0''))
               # (if propertyModified st
                  then [PropertyModified name
                          (JBool (ivalue (inputs st i) \<noteq> ''false'' \<and> ivalue (inputs st i) \<noteq> ''0''))]
                  else [])
          \<and> getProp e (heap (world st') d) name
              = JBool (ivalue (inputs st i) \<noteq> ''false'' \<and> ivalue (inputs st i) \<noteq> ''0''))"
proof
  show "parseBoolean v \<longleftrightarrow> v \<noteq> JBool False \<and> v \<noteq> JStr ''false'' \<and> v \<noteq> JStr ''0''"
    by (simp add: parseBoolean_def)
next
  let ?b = "ivalue (inputs st i) \<noteq> ''false'' \<and> ivalue (inputs st i) \<noteq> ''0''"
  from ed have c: "canEditProperty e (world st) name (declaredProperty e (declaredProperties st) name)
       (inspectedObject st) = Inr True"
    by (simp add: editable_def)
  have ty: "resolveType (declaredProperty e (declaredProperties st) name) (getProp e (heap (world st) d) name)
      = ''boolean''"
    unfolding resolveType_typeAtCommit by (rule typeAtCommit_boolean) (use typed in blast)
  have cv: "convertValue e ''boolean'' (ivalue (inputs st i)) = JBool ?b"
    by (simp add: convertValue_def parseBoolean_def)
  define st' where "st' = (let st2 = setDataProperty d name (JBool ?b) (setInputValue e i (JBool ?b) st)
      in if propertyModified st2 then st2\<lparr>calls := calls st2 @ [PropertyModified name (JBool ?b)]\<rparr> else st2)"
  have run: "commitRow e d (name, i) st = Inr st'"
    using c ty cv by (simp add: commitRow_def Let_def st'_def)
  have cs: "calls st' = calls st @ SetDataProperty d name (JBool ?b)
               # (if propertyModified st then [PropertyModified name (JBool ?b)] else [])"
    by (simp add: st'_def Let_def setDataProperty_def setInputValue_def)
  have gp: "getProp e (heap (world st') d) name = JBool ?b"
    by (simp add: st'_def Let_def setDataProperty_def setInputValue_def getProp_def update_conv')
  show "\<exists>st'. commitRow e d (name, i) st = Inr st'
          \<and> calls st' = calls st @ SetDataProperty d name (JBool ?b)
               # (if propertyModified st then [PropertyModified name (JBool ?b)] else [])
          \<and> getProp e (heap (world st') d) name = JBool ?b"
    using run cs gp by blast
qed

theorem boolean_parsing_witness:
  "(\<exists>desc. map_of (declaredProperties exampleEdited) ''done'' = Some desc \<and> ptype desc = Some ''boolean'')
   \<and> editable exampleExt exampleEdited ''done''
   \<and> ivalue (inputs exampleEdited 1) = ''0''
   \<and> (\<exists>st'. commitRow exampleExt 10 (''done'', 1) exampleEdited = Inr st'
        \<and> calls st' = [SetDataProperty 10 ''done'' (JBool False), PropertyModified ''done'' (JBool False)]
        \<and> getProp exampleExt (heap (world st') 10) ''done'' = JBool False)"
proof -
  have "map_option ptype (map_of (declaredProperties exampleEdited) ''done'') = Some (Some ''boolean'')"
    by (simp add: exampleEdited_facts exampleProperties_def)
  then have 1: "\<exists>desc. map_of (declaredProperties exampleEdited) ''done'' = Some desc \<and> ptype desc = Some ''boolean''"
    by auto
  have 2: "editable exampleExt exampleEdited ''done''" by code_simp
  have 3: "ivalue (inputs exampleEdited 1) = ''0''" by code_simp
  have 4: "calls exampleEdited = []" by code_simp
  have 5: "propertyModified exampleEdited" by code_simp
  from 1 have typed: "(\<exists>desc. map_of (declaredProperties exampleEdited) ''done'' = Some desc \<and> ptype desc = Some ''boolean'')
     \<or> ((\<forall>desc. map_of (declaredProperties exampleEdited) ''done'' = Some desc \<longrightarrow>
             ptype desc = None \<or> ptype desc = Some [])
         \<and> typeof (getProp exampleExt (heap (world exampleEdited) 10) ''done'') = ''boolean'')"
    by blast
  from boolean_parsing [OF typed 2, of JUndefined 1]
  have "\<exists>st'. commitRow exampleExt 10 (''done'', 1) exampleEdited = Inr st'
        \<and> calls st' = [SetDataProperty 10 ''done'' (JBool False), PropertyModified ''done'' (JBool False)]
        \<and> getProp exampleExt (heap (world st') 10) ''done'' = JBool False"
    unfolding 3 4 using 5 by auto
  with 1 2 3 show ?thesis by blast
qed




text \<open>
  C6, as amended. Let a declared property have a predicate as \<^verbatim>\<open>readOnly\<close>. If the predicate
  returns true for the object a call of \<^verbatim>\<open>inspectObject\<close> is about, and the call builds rows,
  every row it leaves for the property has a disabled input. In a commit (the inspected
  object having data, no row being named \<^verbatim>\<open>hasOwnProperty\<close>) each row contributes a group of
  calls that are writes and reports of its own property, and the group of a row of this
  property is empty whenever the predicate returns true on the data as the groups before
  it have left them: the predicate is asked again for every row, after the writes of the
  rows before it. If the predicate returns true whatever the data, the calls of the commit
  contain no \<^verbatim>\<open>setDataProperty\<close> and no callback for the property.
\<close>

theorem readOnly_predicate_excluded:
  assumes decl: "map_of (declaredProperties st) name = Some desc"
    and pred: "preadOnly desc = Predicate f"
  shows
   "(r = objectOfCall object (inspectsSelection st) (selection st) (inspectedObject st)
       \<and> f (world st) r name \<and> r \<noteq> ONull \<and> inspectedObject st \<noteq> r \<longrightarrow>
       (\<forall>row \<in> set (mainDiv (stateAfter (inspectObject e object st))).
           fst row = name \<longrightarrow> disabled (inputs (stateAfter (inspectObject e object st)) (snd row))))
    \<and> (dataOf (world st) (inspectedObject st) = Some d
         \<and> ''hasOwnProperty'' \<notin> fst ` set (inspectedProperties st) \<longrightarrow>
         (\<exists>st' groups. updateAllProperties e st = Inr st'
            \<and> calls st' = calls st @ [StartTransaction ''set all properties''] @ concat groups
                @ [CommitTransaction ''set all properties'']
            \<and> length groups = length (inspectedProperties st)
            \<and> (\<forall>n < length (inspectedProperties st).
                 (\<forall>c \<in> set (groups ! n).
                     (\<exists>x. c = SetDataProperty d (fst (inspectedProperties st ! n)) x)
                     \<or> (\<exists>x. c = PropertyModified (fst (inspectedProperties st ! n)) x))
                 \<and> (fst (inspectedProperties st ! n) = name
                      \<and> f (applyCalls (concat (take n groups)) (world st)) (inspectedObject st) name
                    \<longrightarrow> groups ! n = []))))
    \<and> ((\<forall>w. f w (inspectedObject st) name)
         \<and> ''hasOwnProperty'' \<notin> fst ` set (inspectedProperties st) \<longrightarrow>
         (\<exists>st' new. updateAllProperties e st = Inr st' \<and> calls st' = calls st @ new
            \<and> (\<forall>c \<in> set new. \<forall>d' x. c \<noteq> SetDataProperty d' name x \<and> c \<noteq> PropertyModified name x)))"
proof (intro conjI impI)
  let ?out = "inspectObject e object st"
  assume a: "r = objectOfCall object (inspectsSelection st) (selection st) (inspectedObject st)
       \<and> f (world st) r name \<and> r \<noteq> ONull \<and> inspectedObject st \<noteq> r"
  then have ft: "f (world st) r name" and ne: "r \<noteq> ONull" and diff: "inspectedObject st \<noteq> r"
    by blast+
  from a have r: "resolveObject st object = r" by (simp add: resolveObject_objectOfCall)
  let ?st2 = "st\<lparr>inspectedObject := r, mainDiv := [], inspectedProperties := [], tabIndex := 0\<rparr>"
  note thrown = inspectObject_thrown [of st object e, unfolded r, OF ne diff]
  note rebuilt = inspectObject_rebuilt [of st object _ e, unfolded r, OF ne diff]
  note nodata = inspectObject_no_data [of st object e, unfolded r, OF ne diff]
  show "\<forall>row \<in> set (mainDiv (stateAfter ?out)).
           fst row = name \<longrightarrow> disabled (inputs (stateAfter ?out) (snd row))"
  proof (cases ?out)
    case (Inl exc)
    obtain err st' where exc: "exc = (err, st')" by (cases exc)
    from thrown [OF Inl [unfolded exc]] have "rowsOnly ?st2 st'" .
    from rowsOnly_frame(7) [OF this] show ?thesis unfolding Inl exc by simp
  next
    case (Inr st'')
    show ?thesis
    proof (cases "dataOf (world st) r")
      case None
      from nodata [OF None] show ?thesis by simp
    next
      case (Some d0)
      from rebuilt [OF Some Inr] obtain rows st' where
        fin: "st'' = st'\<lparr>mainDiv := rows\<rparr>" and b: "built e ?st2 rows st'"
        by auto
      have "\<forall>row \<in> set rows. fst row = name \<longrightarrow> disabled (inputs st' (snd row))"
      proof (intro ballI impI)
        fix row assume row: "row \<in> set rows" and n: "fst row = name"
        show "disabled (inputs st' (snd row))"
          by (rule built_disabled [OF b row, of desc f]) (use decl pred ft n in simp_all)
      qed
      then show ?thesis unfolding Inr fin by simp
    qed
  qed
next
  assume a: "dataOf (world st) (inspectedObject st) = Some d
         \<and> ''hasOwnProperty'' \<notin> fst ` set (inspectedProperties st)"
  from updateAllProperties_result [of st d e] a obtain ins groups strs where
    run: "updateAllProperties e st =
         Inr (st\<lparr>inputs := ins, world := applyCalls (concat groups) (world st),
                calls := calls st @ [StartTransaction ''set all properties''] @ concat groups
                  @ [CommitTransaction ''set all properties'']\<rparr>)"
    and len: "length groups = length (inspectedProperties st)"
    and each: "\<forall>n < length (inspectedProperties st).
          groups ! n = propertyCalls e st d (applyCalls (concat (take n groups)) (world st))
                         (fst (inspectedProperties st ! n)) (strs ! n)"
    by blast
  define st' where "st' = st\<lparr>inputs := ins, world := applyCalls (concat groups) (world st),
                calls := calls st @ [StartTransaction ''set all properties''] @ concat groups
                  @ [CommitTransaction ''set all properties'']\<rparr>"
  have 1: "updateAllProperties e st = Inr st'" using run by (simp add: st'_def)
  have 2: "calls st' = calls st @ [StartTransaction ''set all properties''] @ concat groups
               @ [CommitTransaction ''set all properties'']" by (simp add: st'_def)
  have 3: "\<forall>n < length (inspectedProperties st).
                 (\<forall>c \<in> set (groups ! n).
                     (\<exists>x. c = SetDataProperty d (fst (inspectedProperties st ! n)) x)
                     \<or> (\<exists>x. c = PropertyModified (fst (inspectedProperties st ! n)) x))
                 \<and> (fst (inspectedProperties st ! n) = name
                      \<and> f (applyCalls (concat (take n groups)) (world st)) (inspectedObject st) name
                    \<longrightarrow> groups ! n = [])"
  proof (intro allI impI conjI ballI)
    fix n c assume n: "n < length (inspectedProperties st)" and c: "c \<in> set (groups ! n)"
    from each n have g: "groups ! n = propertyCalls e st d (applyCalls (concat (take n groups)) (world st))
                         (fst (inspectedProperties st ! n)) (strs ! n)" by blast
    from c show "(\<exists>x. c = SetDataProperty d (fst (inspectedProperties st ! n)) x)
                     \<or> (\<exists>x. c = PropertyModified (fst (inspectedProperties st ! n)) x)"
      unfolding g by (auto simp: propertyCalls_def Let_def split: if_splits)
  next
    fix n assume n: "n < length (inspectedProperties st)"
      and t: "fst (inspectedProperties st ! n) = name
                      \<and> f (applyCalls (concat (take n groups)) (world st)) (inspectedObject st) name"
    from each n have g: "groups ! n = propertyCalls e st d (applyCalls (concat (take n groups)) (world st))
                         (fst (inspectedProperties st ! n)) (strs ! n)" by blast
    from t decl pred show "groups ! n = []"
      unfolding g by (simp add: propertyCalls_def Let_def editableIn_def)
  qed
  from 1 2 len 3
  show "\<exists>st' groups. updateAllProperties e st = Inr st'
            \<and> calls st' = calls st @ [StartTransaction ''set all properties''] @ concat groups
                @ [CommitTransaction ''set all properties'']
            \<and> length groups = length (inspectedProperties st)
            \<and> (\<forall>n < length (inspectedProperties st).
                 (\<forall>c \<in> set (groups ! n).
                     (\<exists>x. c = SetDataProperty d (fst (inspectedProperties st ! n)) x)
                     \<or> (\<exists>x. c = PropertyModified (fst (inspectedProperties st ! n)) x))
                 \<and> (fst (inspectedProperties st ! n) = name
                      \<and> f (applyCalls (concat (take n groups)) (world st)) (inspectedObject st) name
                    \<longrightarrow> groups ! n = []))"
    by blast
next
  assume a: "(\<forall>w. f w (inspectedObject st) name)
         \<and> ''hasOwnProperty'' \<notin> fst ` set (inspectedProperties st)"
  show "\<exists>st' new. updateAllProperties e st = Inr st' \<and> calls st' = calls st @ new
            \<and> (\<forall>c \<in> set new. \<forall>d' x. c \<noteq> SetDataProperty d' name x \<and> c \<noteq> PropertyModified name x)"
  proof (cases "dataOf (world st) (inspectedObject st)")
    case None
    then have "updateAllProperties e st = Inr st" by (simp add: updateAllProperties_def)
    then have "updateAllProperties e st = Inr st \<and> calls st = calls st @ []
       \<and> (\<forall>c \<in> set []. \<forall>d' x. c \<noteq> SetDataProperty d' name x \<and> c \<noteq> PropertyModified name x)"
      by simp
    then show ?thesis by blast
  next
    case (Some d0)
    from updateAllProperties_result [of st d0 e] a Some obtain ins groups strs where
      run: "updateAllProperties e st =
           Inr (st\<lparr>inputs := ins, world := applyCalls (concat groups) (world st),
                  calls := calls st @ [StartTransaction ''set all properties''] @ concat groups
                    @ [CommitTransaction ''set all properties'']\<rparr>)"
      and len: "length groups = length (inspectedProperties st)"
      and each: "\<forall>n < length (inspectedProperties st).
            groups ! n = propertyCalls e st d0 (applyCalls (concat (take n groups)) (world st))
                           (fst (inspectedProperties st ! n)) (strs ! n)"
      by blast
    let ?new = "[StartTransaction ''set all properties''] @ concat groups
                    @ [CommitTransaction ''set all properties'']"
    have mid: "\<forall>c \<in> set (concat groups). \<forall>d' x. c \<noteq> SetDataProperty d' name x \<and> c \<noteq> PropertyModified name x"
    proof (intro ballI allI)
      fix c d' x assume "c \<in> set (concat groups)"
      then obtain g where "g \<in> set groups" and c: "c \<in> set g" by auto
      then obtain n where n: "n < length groups" and g: "g = groups ! n"
        by (auto simp: in_set_conv_nth)
      from each n len have gn: "groups ! n = propertyCalls e st d0 (applyCalls (concat (take n groups)) (world st))
                           (fst (inspectedProperties st ! n)) (strs ! n)" by simp
      show "c \<noteq> SetDataProperty d' name x \<and> c \<noteq> PropertyModified name x"
      proof (cases "fst (inspectedProperties st ! n) = name")
        case True
        with a decl pred have "groups ! n = []"
          unfolding gn by (simp add: propertyCalls_def Let_def editableIn_def)
        with c g show ?thesis by simp
      next
        case False
        with c show ?thesis unfolding g gn
          by (auto simp: propertyCalls_def Let_def split: if_splits)
      qed
    qed
    then have "\<forall>c \<in> set ?new. \<forall>d' x. c \<noteq> SetDataProperty d' name x \<and> c \<noteq> PropertyModified name x"
      by auto
    moreover define st' where "st' = st\<lparr>inputs := ins, world := applyCalls (concat groups) (world st),
                  calls := calls st @ ?new\<rparr>"
    moreover have "updateAllProperties e st = Inr st'" "calls st' = calls st @ ?new"
      using run by (simp_all add: st'_def)
    ultimately show ?thesis by blast
  qed
qed

theorem readOnly_predicate_excluded_witness:
  "map_option preadOnly (map_of (declaredProperties exampleInitial) ''owner'') = Some (Predicate readOnlyIfPart)
   \<and> OPart 1 = objectOfCall OUndefined (inspectsSelection exampleInitial) (selection exampleInitial)
       (inspectedObject exampleInitial)
   \<and> readOnlyIfPart (world exampleInitial) (OPart 1) ''owner''
   \<and> OPart 1 \<noteq> ONull
   \<and> inspectedObject exampleInitial \<noteq> OPart 1
   \<and> stateAfter (inspectObject exampleExt OUndefined exampleInitial) = exampleBuilt
   \<and> (''owner'', 2) \<in> set (mainDiv exampleBuilt)
   \<and> disabled (inputs exampleBuilt 2)
   \<and> map_option preadOnly (map_of (declaredProperties exampleEdited) ''owner'') = Some (Predicate readOnlyIfPart)
   \<and> dataOf (world exampleEdited) (inspectedObject exampleEdited) = Some 10
   \<and> ''hasOwnProperty'' \<notin> fst ` set (inspectedProperties exampleEdited)
   \<and> inspectedProperties exampleEdited ! 2 = (''owner'', 2)
   \<and> (\<exists>st' groups. updateAllProperties exampleExt exampleEdited = Inr st'
         \<and> calls st' = calls exampleEdited @ [StartTransaction ''set all properties''] @ concat groups
                @ [CommitTransaction ''set all properties'']
         \<and> length groups = length (inspectedProperties exampleEdited)
         \<and> readOnlyIfPart (applyCalls (concat (take 2 groups)) (world exampleEdited))
              (inspectedObject exampleEdited) ''owner''
         \<and> groups ! 2 = [])
   \<and> (\<exists>st' new. updateAllProperties exampleExt exampleEdited = Inr st'
         \<and> calls st' = calls exampleEdited @ new
         \<and> (\<forall>c \<in> set new. \<forall>d' x. c \<noteq> SetDataProperty d' ''owner'' x \<and> c \<noteq> PropertyModified ''owner'' x))"
proof -
  have i1: "map_option preadOnly (map_of (declaredProperties exampleInitial) ''owner'') = Some (Predicate readOnlyIfPart)"
    by (simp add: exampleInitial_facts exampleProperties_def)
  then obtain desc where i2: "map_of (declaredProperties exampleInitial) ''owner'' = Some desc"
    and i3: "preadOnly desc = Predicate readOnlyIfPart" by auto
  have i4: "OPart 1 = objectOfCall OUndefined (inspectsSelection exampleInitial) (selection exampleInitial)
       (inspectedObject exampleInitial)" by (simp add: exampleInitial_facts)
  have i5: "readOnlyIfPart (world exampleInitial) (OPart 1) ''owner''" by (simp add: readOnlyIfPart_def)
  have i6: "OPart 1 \<noteq> ONull" by simp
  have i7: "inspectedObject exampleInitial \<noteq> OPart 1" by (simp add: exampleInitial_facts)
  have i8: "stateAfter (inspectObject exampleExt OUndefined exampleInitial) = exampleBuilt"
    by (simp add: exampleBuilt_outcome)
  have b2: "(''owner'', 2) \<in> set (mainDiv exampleBuilt)" by (simp add: exampleBuilt_facts)
  from readOnly_predicate_excluded [OF i2 i3, of "OPart 1" OUndefined exampleExt 10] i4 i5 i6 i7
  have "\<forall>row \<in> set (mainDiv (stateAfter (inspectObject exampleExt OUndefined exampleInitial))).
           fst row = ''owner'' \<longrightarrow>
           disabled (inputs (stateAfter (inspectObject exampleExt OUndefined exampleInitial)) (snd row))"
    by blast
  with b2 have b3: "disabled (inputs exampleBuilt 2)" unfolding i8 by force
  have e1: "map_option preadOnly (map_of (declaredProperties exampleEdited) ''owner'') = Some (Predicate readOnlyIfPart)"
    by (simp add: exampleEdited_facts exampleProperties_def)
  then obtain desc' where e2: "map_of (declaredProperties exampleEdited) ''owner'' = Some desc'"
    and e3: "preadOnly desc' = Predicate readOnlyIfPart" by auto
  have e4: "\<forall>w. readOnlyIfPart w (inspectedObject exampleEdited) ''owner''"
    by (simp add: exampleEdited_facts readOnlyIfPart_def)
  have e5: "dataOf (world exampleEdited) (inspectedObject exampleEdited) = Some 10" by code_simp
  have e6: "''hasOwnProperty'' \<notin> fst ` set (inspectedProperties exampleEdited)"
    by (simp add: exampleEdited_facts)
  have e7: "inspectedProperties exampleEdited ! 2 = (''owner'', 2)"
    by (simp add: exampleEdited_facts)
  have e8: "(2::nat) < length (inspectedProperties exampleEdited)" by (simp add: exampleEdited_facts)
  note B = readOnly_predicate_excluded [OF e2 e3, of "OPart 1" OUndefined exampleExt 10]
  from B e5 e6 obtain st' groups where
    run: "updateAllProperties exampleExt exampleEdited = Inr st'"
    and cs: "calls st' = calls exampleEdited @ [StartTransaction ''set all properties''] @ concat groups
                @ [CommitTransaction ''set all properties'']"
    and len: "length groups = length (inspectedProperties exampleEdited)"
    and each: "\<forall>n < length (inspectedProperties exampleEdited).
                 (\<forall>c \<in> set (groups ! n).
                     (\<exists>x. c = SetDataProperty 10 (fst (inspectedProperties exampleEdited ! n)) x)
                     \<or> (\<exists>x. c = PropertyModified (fst (inspectedProperties exampleEdited ! n)) x))
                 \<and> (fst (inspectedProperties exampleEdited ! n) = ''owner''
                      \<and> readOnlyIfPart (applyCalls (concat (take n groups)) (world exampleEdited))
                           (inspectedObject exampleEdited) ''owner''
                    \<longrightarrow> groups ! n = [])"
    by blast
  from e4 have t: "readOnlyIfPart (applyCalls (concat (take 2 groups)) (world exampleEdited))
              (inspectedObject exampleEdited) ''owner''" by blast
  from each e8 e7 t have g2: "groups ! 2 = []" by force
  from run cs len t g2
  have c1: "\<exists>st' groups. updateAllProperties exampleExt exampleEdited = Inr st'
         \<and> calls st' = calls exampleEdited @ [StartTransaction ''set all properties''] @ concat groups
                @ [CommitTransaction ''set all properties'']
         \<and> length groups = length (inspectedProperties exampleEdited)
         \<and> readOnlyIfPart (applyCalls (concat (take 2 groups)) (world exampleEdited))
              (inspectedObject exampleEdited) ''owner''
         \<and> groups ! 2 = []"
    by blast
  from B e4 e6 have c2: "\<exists>st' new. updateAllProperties exampleExt exampleEdited = Inr st'
         \<and> calls st' = calls exampleEdited @ new
         \<and> (\<forall>c \<in> set new. \<forall>d' x. c \<noteq> SetDataProperty d' ''owner'' x \<and> c \<noteq> PropertyModified ''owner'' x)"
    by blast
  from i1 i4 i5 i6 i7 i8 b2 b3 e1 e5 e6 e7 c1 c2 show ?thesis by blast
qed

text \<open>
  C6 as stated fails for a predicate that reads the data. \<^verbatim>\<open>owner\<close> is read-only as long as
  \<^verbatim>\<open>done\<close> is false. The predicate returns true for the inspected part when the rows are
  built (the input of \<^verbatim>\<open>owner\<close> is disabled) and still when the commit starts; the row of
  \<^verbatim>\<open>done\<close>, whose input shows the empty string for \<^verbatim>\<open>false\<close>, is committed first and writes
  \<^verbatim>\<open>true\<close>; when the loop reaches \<^verbatim>\<open>owner\<close> the predicate returns false, and \<^verbatim>\<open>owner\<close> is
  written and reported.
\<close>

theorem predicate_true_at_start_of_commit_yet_property_written:
  "map_option preadOnly (map_of (declaredProperties lockedBuilt) ''owner'') = Some (Predicate readOnlyUntilDone)
   \<and> inspectedObject lockedBuilt = OPart 1
   \<and> mainDiv lockedBuilt = [(''done'', 0), (''owner'', 1)]
   \<and> readOnlyUntilDone (world lockedBuilt) (OPart 1) ''owner''
   \<and> disabled (inputs lockedBuilt 1)
   \<and> ivalue (inputs lockedBuilt 0) = []
   \<and> calls (projr (updateAllProperties exampleExt lockedBuilt)) =
       [StartTransaction ''set all properties'',
        SetDataProperty 10 ''done'' (JBool True), PropertyModified ''done'' (JBool True),
        SetDataProperty 10 ''owner'' (JStr ''ann''), PropertyModified ''owner'' (JStr ''ann''),
        CommitTransaction ''set all properties'']"
proof -
  have out: "inspectObject exampleExt OUndefined lockedInitial = Inr lockedBuilt"
  proof -
    have "\<not> isl (inspectObject exampleExt OUndefined lockedInitial)" by code_simp
    then show ?thesis unfolding lockedBuilt_def
      by (cases "inspectObject exampleExt OUndefined lockedInitial") auto
  qed
  have li: "declaredProperties lockedInitial = lockedProperties"
    "inspectsSelection lockedInitial" "selection lockedInitial = [1]"
    "inspectedObject lockedInitial = ONull" "world lockedInitial = exampleWorld"
    by (simp_all add: lockedInitial_def Inspector_def)
  have ne: "resolveObject lockedInitial OUndefined \<noteq> ONull"
    and diff: "inspectedObject lockedInitial \<noteq> resolveObject lockedInitial OUndefined"
    by (simp_all add: resolveObject_objectOfCall li)
  have data: "dataOf (world lockedInitial) (resolveObject lockedInitial OUndefined) = Some 10"
    by (simp add: resolveObject_objectOfCall li dataOf_def exampleWorld_def)
  from inspectObject_rebuilt [OF ne diff data out] obtain rows st' where
    eq: "lockedBuilt = st'\<lparr>mainDiv := rows\<rparr>"
    and b: "built exampleExt (lockedInitial\<lparr>inspectedObject := resolveObject lockedInitial OUndefined,
          mainDiv := [], inspectedProperties := [], tabIndex := 0\<rparr>) rows st'"
    by blast
  have dp: "declaredProperties lockedBuilt = lockedProperties"
    unfolding eq using built_frame(2) [OF b] by (simp add: li)
  have 1: "map_option preadOnly (map_of (declaredProperties lockedBuilt) ''owner'') = Some (Predicate readOnlyUntilDone)"
    by (simp add: dp lockedProperties_def)
  have 2: "inspectedObject lockedBuilt = OPart 1" by code_simp
  have 3: "mainDiv lockedBuilt = [(''done'', 0), (''owner'', 1)]" by code_simp
  have 4: "readOnlyUntilDone (world lockedBuilt) (OPart 1) ''owner''" by code_simp
  have 5: "disabled (inputs lockedBuilt 1)" by code_simp
  have 6: "ivalue (inputs lockedBuilt 0) = []" by code_simp
  have 7: "calls (projr (updateAllProperties exampleExt lockedBuilt)) =
       [StartTransaction ''set all properties'',
        SetDataProperty 10 ''done'' (JBool True), PropertyModified ''done'' (JBool True),
        SetDataProperty 10 ''owner'' (JStr ''ann''), PropertyModified ''owner'' (JStr ''ann''),
        CommitTransaction ''set all properties'']"
    by code_simp
  from 1 2 3 4 5 6 7 show ?thesis by blast
qed

text \<open>
  C7. The commit asks \<^verbatim>\<open>canEditProperty\<close> only, which does not look at the model's
  \<^verbatim>\<open>isReadOnly\<close>: with the model read-only, the commit of the example still writes and
  reports \<^verbatim>\<open>done\<close>, \<^verbatim>\<open>fill\<close> and \<^verbatim>\<open>text\<close>. (\<^verbatim>\<open>buildPropertyRow\<close> does disable the inputs of
  a read-only model; the three other conditions do stop the commit, see
  \<open>canEditProperty_readOnly_cases\<close>.)
\<close>

theorem readOnly_model_commit_writes:
  "isReadOnly exampleReadOnly
   \<and> calls (projr (updateAllProperties exampleExt exampleReadOnly)) =
      [StartTransaction ''set all properties'',
       SetDataProperty 10 ''done'' (JBool False), PropertyModified ''done'' (JBool False),
       SetDataProperty 10 ''fill'' (JStr ''#ff0000''), PropertyModified ''fill'' (JStr ''#ff0000''),
       SetDataProperty 10 ''text'' (JStr ''changed''), PropertyModified ''text'' (JStr ''changed''),
       CommitTransaction ''set all properties'']"
  by code_simp

text \<open>
  C10. When the inspected object is \<^verbatim>\<open>null\<close>, or has no data, \<^verbatim>\<open>updateAllProperties\<close> returns
  with the state unchanged: no call is made on the diagram, the model or the callback, no
  property is written and no input is touched.
\<close>

theorem updateAllProperties_without_data:
  assumes "inspectedObject st = ONull \<or> dataOf (world st) (inspectedObject st) = None"
  shows "updateAllProperties e st = Inr st"
proof -
  from assms have "dataOf (world st) (inspectedObject st) = None"
    by (auto simp: dataOf_def)
  then show ?thesis by (simp add: updateAllProperties_def)
qed

theorem updateAllProperties_without_data_witness:
  "inspectedObject exampleInitial = ONull
   \<and> updateAllProperties exampleExt exampleInitial = Inr exampleInitial
   \<and> dataOf (world (exampleInitial\<lparr>inspectedObject := OPart 2\<rparr>))
        (inspectedObject (exampleInitial\<lparr>inspectedObject := OPart 2\<rparr>)) = None
   \<and> updateAllProperties exampleExt (exampleInitial\<lparr>inspectedObject := OPart 2\<rparr>)
       = Inr (exampleInitial\<lparr>inspectedObject := OPart 2\<rparr>)"
proof -
  have 1: "inspectedObject exampleInitial = ONull"
    by (simp add: exampleInitial_def Inspector_def)
  have 2: "dataOf (world (exampleInitial\<lparr>inspectedObject := OPart 2\<rparr>))
        (inspectedObject (exampleInitial\<lparr>inspectedObject := OPart 2\<rparr>)) = None"
    by (simp add: exampleInitial_def Inspector_def exampleWorld_def dataOf_def)
  from 1 2 updateAllProperties_without_data [of exampleInitial exampleExt]
    updateAllProperties_without_data [of "exampleInitial\<lparr>inspectedObject := OPart 2\<rparr>" exampleExt]
  show ?thesis by blast
qed

section \<open>Properties of the catalogue query client\<close>

text \<open>
  C8, as amended. \<^verbatim>\<open>getExecutionResults\<close> has no handler of its own: an exception thrown
  by the parser leaves the function, whatever the callback received before. A failure the
  parser reports through the callback's first argument is not looked at: the function
  returns the second argument of the last invocation (\<^verbatim>\<open>undefined\<close> for a reported failure),
  and \<^verbatim>\<open>undefined\<close> if the callback was never invoked.
\<close>

theorem mapResponse_no_handler:
  "mapResponse \<lparr>invocations = cs, thrown = Some exn\<rparr> = Inl exn
   \<and> mapResponse \<lparr>invocations = cs @ [(err, result)], thrown = None\<rparr> = Inr result
   \<and> mapResponse \<lparr>invocations = [], thrown = None\<rparr> = Inr None"
  by (simp add: mapResponse_def callback_def)

text \<open>
  C8 as stated fails for a parser that reports the failure to the callback: the result is
  \<^verbatim>\<open>undefined\<close>, not an exception.
\<close>

theorem parse_failure_reported_to_callback_is_dropped:
  "mapResponse \<lparr>invocations = [(Some ''Unclosed root tag'', None)], thrown = None\<rparr>
     = (Inr None :: string + unit option)"
  by (simp add: mapResponse_def callback_def)

text \<open>
  C9. For every execution identifier, the request body holds the identifier, unchanged
  and between two percent signs, as the content of the \<^verbatim>\<open>ogc:Literal\<close> element that follows
  the \<^verbatim>\<open>dc:title\<close> property name inside the \<^verbatim>\<open>PropertyIsLike\<close> filter; for the identifier
  \<^verbatim>\<open>abc123\<close> the body contains the text \<^verbatim>\<open>%abc123%\<close>. Nothing is escaped or checked: the
  equation holds for every string, whatever characters it has.
\<close>

theorem requestBody_wildcard_literal:
  \<open>(\<exists>pre post. requestBody executionId =
       pre @ ''<ogc:PropertyIsLike matchCase="false" wildCard="%" singleChar="_" escapeChar="">''
           @ ''\<newline>                <ogc:PropertyName>dc:title</ogc:PropertyName>''
           @ ''\<newline>                <ogc:Literal>%'' @ executionId @ ''%</ogc:Literal>''
           @ ''\<newline>              </ogc:PropertyIsLike>'' @ post)
   \<and> body (getExecutionResultsRequest endpoint executionId) = requestBody executionId
   \<and> sublist ''%abc123%'' (requestBody ''abc123'')\<close>
proof (intro conjI)
  have open_eq: \<open>xmlFilterOpen =
      ''              '' @ ''<ogc:PropertyIsLike matchCase="false" wildCard="%" singleChar="_" escapeChar="">''
           @ ''\<newline>                <ogc:PropertyName>dc:title</ogc:PropertyName>''
           @ ''\<newline>                <ogc:Literal>''\<close>
    by (simp add: xmlFilterOpen_def)
  have close_eq: \<open>xmlFilterClose = ''</ogc:Literal>'' @ ''\<newline>              </ogc:PropertyIsLike>''\<close>
    by (simp add: xmlFilterClose_def)
  have \<open>requestBody executionId =
       (xmlEnvelopeOpen @ ''              '') @ ''<ogc:PropertyIsLike matchCase="false" wildCard="%" singleChar="_" escapeChar="">''
           @ ''\<newline>                <ogc:PropertyName>dc:title</ogc:PropertyName>''
           @ ''\<newline>                <ogc:Literal>%'' @ executionId @ ''%</ogc:Literal>''
           @ ''\<newline>              </ogc:PropertyIsLike>'' @ xmlEnvelopeClose\<close>
    unfolding requestBody_def open_eq close_eq by simp
  then show \<open>\<exists>pre post. requestBody executionId =
       pre @ ''<ogc:PropertyIsLike matchCase="false" wildCard="%" singleChar="_" escapeChar="">''
           @ ''\<newline>                <ogc:PropertyName>dc:title</ogc:PropertyName>''
           @ ''\<newline>                <ogc:Literal>%'' @ executionId @ ''%</ogc:Literal>''
           @ ''\<newline>              </ogc:PropertyIsLike>'' @ post\<close>
    by blast
next
  show \<open>body (getExecutionResultsRequest endpoint executionId) = requestBody executionId\<close>
    by (simp add: getExecutionResultsRequest_def)
next
  have \<open>requestBody ''abc123'' =
      (xmlEnvelopeOpen @ xmlFilterOpen) @ ''%abc123%'' @ (xmlFilterClose @ xmlEnvelopeClose)\<close>
    by (simp add: requestBody_def)
  then show \<open>sublist ''%abc123%'' (requestBody ''abc123'')\<close>
    unfolding sublist_def by blast
qed

end
